theory Spec2Isabelle
  imports Main "HOL-Library.Word"
begin

section \<open>Types and constants of semtest.c\<close>

text \<open>
  The target is a 32-bit Cortex-M3: \<open>short\<close> is 16 bits, \<open>unsigned long\<close>,
  \<open>TickType_t\<close> and \<open>BaseType_t\<close> are 32 bits.  Arithmetic on words wraps
  around, which is what the compiler's conversion of \<open>int\<close> back to \<open>short\<close>
  does after \<open>++\<close>.  Pointers are addresses, with \<open>NULL\<close> the address 0.
\<close>

type_synonym short = "16 word"
type_synonym ulong = "32 word"
type_synonym TickType_t = "32 word"
type_synonym BaseType_t = "32 word"
type_synonym UBaseType_t = "32 word"
type_synonym addr = nat

definition NULL :: addr where
  "NULL = 0"

definition pdTRUE :: BaseType_t where
  "pdTRUE = 1"

definition pdFALSE :: BaseType_t where
  "pdFALSE = 0"

definition semtstBLOCKING_EXPECTED_VALUE :: ulong where
  "semtstBLOCKING_EXPECTED_VALUE = 0xfff"

definition semtstNON_BLOCKING_EXPECTED_VALUE :: ulong where
  "semtstNON_BLOCKING_EXPECTED_VALUE = 0xff"

definition semtstNUM_TASKS :: nat where
  "semtstNUM_TASKS = 4"

definition semtstDELAY_FACTOR :: TickType_t where
  "semtstDELAY_FACTOR = 10"

text \<open>
  Modelled from the spec: \<open>tskIDLE_PRIORITY\<close> is a macro of task.h, which is not
  part of the sources; the spec calls it the lowest (idle) priority.
\<close>

definition tskIDLE_PRIORITY :: UBaseType_t where
  "tskIDLE_PRIORITY = 0"

datatype message = pcPollingSemaphoreTaskError | pcSemaphoreTaskStart

datatype access = Wr ulong | Rd ulong

datatype sched_call = TaskYield | TaskDelay TickType_t

datatype fault = NullPointerWrite | InvalidPointer | IndexOutOfBounds | DivisionByZero

datatype 'a result = Ok 'a | Fault fault | Diverges

fun bind_result :: "'a result \<Rightarrow> ('a \<Rightarrow> 'b result) \<Rightarrow> 'b result" where
  "bind_result (Ok x) f = f x"
| "bind_result (Fault e) f = Fault e"
| "bind_result Diverges f = Diverges"

text \<open>The structure used to pass parameters to each task.\<close>

record xSemaphoreParameters =
  xSemaphore :: addr
  pulSharedVariable :: addr
  xBlockTime :: TickType_t

text \<open>One call of \<open>xTaskCreate\<close> that succeeded: name, parameter pointer, priority.\<close>

record task_entry =
  pcName :: string
  pvParameters :: addr
  uxPriority :: UBaseType_t

text \<open>
  The state shared by all tasks.  \<open>sCheckVariables\<close> and \<open>sNextCheckVariable\<close>
  are the file-scope variables, \<open>sLastCheckVariables\<close> is the static local of
  \<open>xAreSemaphoreTasksStillRunning\<close>, \<open>display\<close> is the queue that
  \<open>vPrintDisplayMessage\<close> appends to.  The heap holds the guarded variables
  (\<open>vars\<close>), the parameter structures (\<open>params\<close>) and the semaphores
  (\<open>sems\<close>, \<open>True\<close> when available); \<open>tasks\<close> lists the tasks created so
  far.  \<open>accesses\<close> records, in order, every write a task makes to its guarded
  variable inside the counting loop and the value every re-read returns;
  \<open>sched\<close> records the calls of \<open>taskYIELD\<close> and \<open>vTaskDelay\<close>.
\<close>

record world =
  sCheckVariables :: "short list"
  sNextCheckVariable :: short
  sLastCheckVariables :: "short list"
  display :: "message list"
  vars :: "addr \<rightharpoonup> ulong"
  params :: "addr \<rightharpoonup> xSemaphoreParameters"
  sems :: "addr \<rightharpoonup> bool"
  tasks :: "task_entry list"
  accesses :: "access list"
  sched :: "sched_call list"

definition vPrintDisplayMessage :: "message \<Rightarrow> world \<Rightarrow> world" where
  "vPrintDisplayMessage m w = w\<lparr>display := display w @ [m]\<rparr>"

text \<open>
  The state before \<open>main\<close> runs: the two arrays and the index counter hold their
  initialisers, nothing has been printed, allocated or created.
\<close>

definition initial_world :: world where
  "initial_world =
     \<lparr>sCheckVariables = [0, 0, 0, 0], sNextCheckVariable = 0,
      sLastCheckVariables = [0, 0, 0, 0], display = [],
      vars = Map.empty, params = Map.empty, sems = Map.empty, tasks = [],
      accesses = [], sched = []\<rparr>"

section \<open>vStartSemaphoreTasks\<close>

text \<open>
  What the allocator and the kernel return to one group's part of
  \<open>vStartSemaphoreTasks\<close>: the pointer returned by \<open>pvPortMalloc\<close> for the
  parameter structure, the handle that \<open>vSemaphoreCreateBinary\<close> stores, the
  pointer returned by \<open>pvPortMalloc\<close> for the shared variable (each \<open>NULL\<close>
  on failure), and whether each of the two \<open>xTaskCreate\<close> calls creates its task.
\<close>

record group_env =
  malloc_params :: addr
  sem_handle :: addr
  malloc_var :: addr
  created1 :: bool
  created2 :: bool

record startup_env =
  first_group :: group_env
  second_group :: group_env

text \<open>
  A structure returned by \<open>pvPortMalloc\<close>; its fields are written before they are
  read, so their initial content does not matter and is taken to be zero.
\<close>

definition pvPortMalloc_params :: "addr \<Rightarrow> world \<Rightarrow> world" where
  "pvPortMalloc_params p w =
     (if p = NULL then w
      else w\<lparr>params := (params w)(p \<mapsto>
             \<lparr>xSemaphore = NULL, pulSharedVariable = NULL, xBlockTime = 0\<rparr>)\<rparr>)"

definition update_params ::
  "addr \<Rightarrow> (xSemaphoreParameters \<Rightarrow> xSemaphoreParameters) \<Rightarrow> world \<Rightarrow> world" where
  "update_params p f w =
     (case params w p of None \<Rightarrow> w | Some ps \<Rightarrow> w\<lparr>params := (params w)(p \<mapsto> f ps)\<rparr>)"

text \<open>
  Modelled from the spec: \<open>vSemaphoreCreateBinary\<close> is a macro of semphr.h, which
  is not part of the sources.  It stores the new handle in the structure's field; the
  spec has the primitive created in the available state.  A \<open>NULL\<close> handle means
  that no semaphore was created.
\<close>

definition vSemaphoreCreateBinary :: "addr \<Rightarrow> addr \<Rightarrow> world \<Rightarrow> world" where
  "vSemaphoreCreateBinary p h w =
     update_params p (\<lambda>ps. ps\<lparr>xSemaphore := h\<rparr>)
       (if h = NULL then w else w\<lparr>sems := (sems w)(h \<mapsto> True)\<rparr>)"

text \<open>The assignment \<open>*p = x\<close> to a shared variable: a fault when \<open>p\<close> is \<open>NULL\<close>.\<close>

definition write_var :: "addr \<Rightarrow> ulong \<Rightarrow> world \<Rightarrow> world result" where
  "write_var p x w =
     (if p = NULL then Fault NullPointerWrite else Ok (w\<lparr>vars := (vars w)(p \<mapsto> x)\<rparr>))"

text \<open>\<open>xTaskCreate\<close>, whose return value the caller ignores.\<close>

definition xTaskCreate :: "bool \<Rightarrow> string \<Rightarrow> addr \<Rightarrow> UBaseType_t \<Rightarrow> world \<Rightarrow> world" where
  "xTaskCreate created name p prio w =
     (if created
      then w\<lparr>tasks := tasks w @ [\<lparr>pcName = name, pvParameters = p, uxPriority = prio\<rparr>]\<rparr>
      else w)"

text \<open>
  One of the two blocks of \<open>vStartSemaphoreTasks\<close>; the second block does
  "exactly the same" as the first with other constants.  \<open>bt\<close> is the block time
  the block computes after it has initialised the shared variable.
\<close>

definition create_group ::
  "group_env \<Rightarrow> string \<Rightarrow> string \<Rightarrow> ulong \<Rightarrow> TickType_t result \<Rightarrow> UBaseType_t \<Rightarrow>
   world \<Rightarrow> world result" where
  "create_group g name1 name2 expected bt prio w =
     (if malloc_params g \<noteq> NULL then
        let w1 = pvPortMalloc_params (malloc_params g) w;
            w2 = vSemaphoreCreateBinary (malloc_params g) (sem_handle g) w1
        in if sem_handle g \<noteq> NULL then
             let w3 = update_params (malloc_params g)
                        (\<lambda>ps. ps\<lparr>pulSharedVariable := malloc_var g\<rparr>) w2
             in bind_result (write_var (malloc_var g) expected w3) (\<lambda>w4.
                bind_result bt (\<lambda>b.
                  let w5 = update_params (malloc_params g) (\<lambda>ps. ps\<lparr>xBlockTime := b\<rparr>) w4;
                      w6 = xTaskCreate (created1 g) name1 (malloc_params g) prio w5;
                      w7 = xTaskCreate (created2 g) name2 (malloc_params g) prio w6
                  in Ok w7))
           else Ok w2
      else Ok w)"

text \<open>
  \<open>portTICK_PERIOD_MS\<close> comes from the port's configuration header, which is not
  part of the sources, so it is a parameter.  Dividing by zero is a fault.
\<close>

definition vStartSemaphoreTasks ::
  "startup_env \<Rightarrow> TickType_t \<Rightarrow> UBaseType_t \<Rightarrow> world \<Rightarrow> world result" where
  "vStartSemaphoreTasks env portTICK_PERIOD_MS prio w =
     bind_result
       (create_group (first_group env) ''PolSEM1'' ''PolSEM2''
          semtstNON_BLOCKING_EXPECTED_VALUE (Ok 0) tskIDLE_PRIORITY w)
       (\<lambda>w'. create_group (second_group env) ''BlkSEM1'' ''BlkSEM2''
          semtstBLOCKING_EXPECTED_VALUE
          (if portTICK_PERIOD_MS = 0 then Fault DivisionByZero
           else Ok (100 div portTICK_PERIOD_MS))
          prio w')"

section \<open>prvSemaphoreTest\<close>

text \<open>
  The locals of one task.  \<open>pxParameters\<close> is the structure the task's parameter
  points to (nothing writes it after the task is created); \<open>sError\<close> holds
  \<open>pdTRUE\<close> or \<open>pdFALSE\<close> and is a \<open>bool\<close> here.
\<close>

record task =
  pxParameters :: xSemaphoreParameters
  ulExpectedValue :: ulong
  sError :: bool
  sCheckVariableToUse :: short

definition expected_value :: "TickType_t \<Rightarrow> ulong" where
  "expected_value bt =
     (if bt > 0 then semtstBLOCKING_EXPECTED_VALUE else semtstNON_BLOCKING_EXPECTED_VALUE)"

text \<open>
  The part of \<open>prvSemaphoreTest\<close> before the endless loop.  The read and the
  increment of \<open>sNextCheckVariable\<close> are inside a critical section, hence one step.
\<close>

definition prvSemaphoreTest_start :: "addr \<Rightarrow> world \<Rightarrow> (task \<times> world) result" where
  "prvSemaphoreTest_start pv w =
     (let i = sNextCheckVariable w;
          w1 = w\<lparr>sNextCheckVariable := sNextCheckVariable w + 1\<rparr>;
          w2 = vPrintDisplayMessage pcSemaphoreTaskStart w1
      in case params w2 pv of
           None \<Rightarrow> Fault InvalidPointer
         | Some ps \<Rightarrow>
             Ok (\<lparr>pxParameters = ps, ulExpectedValue = expected_value (xBlockTime ps),
                  sError = False, sCheckVariableToUse = i\<rparr>, w2))"

text \<open>The tasks that begin to run, in the order in which they do.\<close>

fun start_tasks :: "addr list \<Rightarrow> world \<Rightarrow> (task list \<times> world) result" where
  "start_tasks [] w = Ok ([], w)"
| "start_tasks (pv # pvs) w =
     bind_result (prvSemaphoreTest_start pv w) (\<lambda>(t, w1).
     bind_result (start_tasks pvs w1) (\<lambda>(ts, w2). Ok (t # ts, w2)))"

text \<open>
  What the rest of the system does to a task during one pass of its endless loop:
  whether \<open>xSemaphoreTake\<close> returns \<open>pdPASS\<close>, whether \<open>xSemaphoreGive\<close>
  returns something other than \<open>pdFALSE\<close>, and, for each value of
  \<open>ulCounter\<close>, the value another task writes to the guarded variable between this
  task's write of \<open>ulCounter\<close> and its re-read (\<open>None\<close> when nothing is
  written there, as mutual exclusion demands).
\<close>

record cycle_env =
  take_passes :: bool
  interference :: "ulong \<Rightarrow> ulong option"
  give_passes :: bool

text \<open>What the guarded variable holds when the task re-reads it after writing \<open>c\<close>.\<close>

definition readback :: "cycle_env \<Rightarrow> ulong \<Rightarrow> ulong" where
  "readback env c = (case interference env c of None \<Rightarrow> c | Some v \<Rightarrow> v)"

text \<open>One pass of the body of the counting loop, for \<open>ulCounter = c\<close>.\<close>

fun reverify :: "cycle_env \<Rightarrow> addr \<Rightarrow> ulong \<Rightarrow> bool \<times> world \<Rightarrow> bool \<times> world" where
  "reverify env p c (e, w) =
     (let w1 = w\<lparr>vars := (vars w)(p \<mapsto> c), accesses := accesses w @ [Wr c]\<rparr>;
          r = readback env c;
          w2 = w1\<lparr>vars := (vars w1)(p \<mapsto> r), accesses := accesses w1 @ [Rd r]\<rparr>
      in if r \<noteq> c
         then (True, if \<not> e then vPrintDisplayMessage pcPollingSemaphoreTaskError w2 else w2)
         else (e, w2))"

text \<open>
  The counting loop \<open>for (ulCounter = 0; ulCounter <= ulExpectedValue; ulCounter++)\<close>
  on 32-bit counters, from \<open>ulCounter = c\<close> on.  For
  \<open>ulExpectedValue = 0xffffffff\<close> the condition never fails and the loop does not
  return.
\<close>

partial_function (option) count_up ::
  "cycle_env \<Rightarrow> addr \<Rightarrow> ulong \<Rightarrow> ulong \<Rightarrow> bool \<times> world \<Rightarrow> (bool \<times> world) option" where
  "count_up env p E c st =
     (if c \<le> E then count_up env p E (c + 1) (reverify env p c st) else Some st)"

text \<open>The first \<open>n\<close> passes of the loop body from \<open>ulCounter = c\<close> on.\<close>

primrec reverify_from ::
  "cycle_env \<Rightarrow> addr \<Rightarrow> nat \<Rightarrow> ulong \<Rightarrow> bool \<times> world \<Rightarrow> bool \<times> world" where
  "reverify_from env p 0 c st = st"
| "reverify_from env p (Suc n) c st = reverify_from env p n (c + 1) (reverify env p c st)"

text \<open>
  \<open>( sCheckVariables[ i ] )++\<close>: an index outside the array is a fault; the
  16-bit value wraps around.
\<close>

definition increment_check_variable :: "short \<Rightarrow> world \<Rightarrow> world result" where
  "increment_check_variable i w =
     (if 0 \<le> sint i \<and> nat (sint i) < length (sCheckVariables w)
      then Ok (w\<lparr>sCheckVariables :=
                  (sCheckVariables w)[nat (sint i) := sCheckVariables w ! nat (sint i) + 1]\<rparr>)
      else Fault IndexOutOfBounds)"

text \<open>The three checks of one pass and the update that follows them.\<close>

definition check_precondition :: "task \<Rightarrow> ulong \<Rightarrow> world \<Rightarrow> bool \<times> world" where
  "check_precondition t v w =
     (if v \<noteq> ulExpectedValue t
      then (True, vPrintDisplayMessage pcPollingSemaphoreTaskError w)
      else (sError t, w))"

definition check_give :: "cycle_env \<Rightarrow> bool \<times> world \<Rightarrow> bool \<times> world" where
  "check_give env st =
     (if \<not> give_passes env
      then (True, vPrintDisplayMessage pcPollingSemaphoreTaskError (snd st))
      else st)"

definition signal_progress :: "task \<Rightarrow> bool \<times> world \<Rightarrow> world result" where
  "signal_progress t st =
     (if \<not> fst st then
        (if sint (sCheckVariableToUse t) < int semtstNUM_TASKS
         then increment_check_variable (sCheckVariableToUse t) (snd st)
         else Ok (snd st))
      else Ok (snd st))"

definition vTaskDelay :: "TickType_t \<Rightarrow> world \<Rightarrow> world" where
  "vTaskDelay n w = w\<lparr>sched := sched w @ [TaskDelay n]\<rparr>"

definition taskYIELD :: "world \<Rightarrow> world" where
  "taskYIELD w = w\<lparr>sched := sched w @ [TaskYield]\<rparr>"

text \<open>One pass of the endless loop \<open>for( ; ; )\<close> of \<open>prvSemaphoreTest\<close>.\<close>

definition prvSemaphoreTest_cycle :: "cycle_env \<Rightarrow> task \<Rightarrow> world \<Rightarrow> (task \<times> world) result" where
  "prvSemaphoreTest_cycle env t w =
     (if take_passes env then
        (case vars w (pulSharedVariable (pxParameters t)) of
           None \<Rightarrow> Fault InvalidPointer
         | Some v \<Rightarrow>
             (case count_up env (pulSharedVariable (pxParameters t)) (ulExpectedValue t) 0
                     (check_precondition t v w) of
                None \<Rightarrow> Diverges
              | Some st \<Rightarrow>
                  bind_result (signal_progress t (check_give env st)) (\<lambda>w'.
                    Ok (t\<lparr>sError := fst (check_give env st)\<rparr>,
                        vTaskDelay (xBlockTime (pxParameters t) * semtstDELAY_FACTOR) w'))))
      else Ok (t, if xBlockTime (pxParameters t) = 0 then taskYIELD w else w))"

text \<open>
  The endless loop, as far as a list of passes reaches.  Between two passes the other
  tasks run: \<open>others\<close> is what they do to the shared state before the pass.
\<close>

record pass =
  others :: "world \<Rightarrow> world"
  pass_env :: cycle_env

fun prvSemaphoreTest_run :: "pass list \<Rightarrow> task \<Rightarrow> world \<Rightarrow> (task \<times> world) result" where
  "prvSemaphoreTest_run [] t w = Ok (t, w)"
| "prvSemaphoreTest_run (ps # pss) t w =
     bind_result (prvSemaphoreTest_cycle (pass_env ps) t (others ps w)) (\<lambda>(t', w').
       prvSemaphoreTest_run pss t' w')"

text \<open>
  The three faults a pass can detect: the guarded variable does not hold the expected
  value when the semaphore has been taken, some re-read in the counting loop differs from
  the value just written, \<open>xSemaphoreGive\<close> returns \<open>pdFALSE\<close>.
\<close>

definition precondition_fault :: "task \<Rightarrow> world \<Rightarrow> bool" where
  "precondition_fault t w =
     (vars w (pulSharedVariable (pxParameters t)) \<noteq> Some (ulExpectedValue t))"

definition reverify_fault :: "cycle_env \<Rightarrow> task \<Rightarrow> bool" where
  "reverify_fault env t = (\<exists>c. c \<le> ulExpectedValue t \<and> readback env c \<noteq> c)"

definition release_fault :: "cycle_env \<Rightarrow> bool" where
  "release_fault env = (\<not> give_passes env)"

definition faulted :: "cycle_env \<Rightarrow> task \<Rightarrow> world \<Rightarrow> bool" where
  "faulted env t w =
     (take_passes env \<and> (precondition_fault t w \<or> reverify_fault env t \<or> release_fault env))"

text \<open>
  The accesses of a counting loop that runs from 0 to \<open>E\<close>: each value is written
  and then read back.
\<close>

definition probe :: "cycle_env \<Rightarrow> ulong \<Rightarrow> access list" where
  "probe env E =
     concat (map (\<lambda>i. [Wr (of_nat i), Rd (readback env (of_nat i))]) [0..<Suc (unat E)])"

text \<open>
  The state of a pass after its \<open>xSemaphoreGive\<close>, when the guarded variable held
  \<open>v\<close> at the start and the counting loop returns.
\<close>

definition critical_section :: "cycle_env \<Rightarrow> task \<Rightarrow> ulong \<Rightarrow> world \<Rightarrow> bool \<times> world" where
  "critical_section env t v w =
     check_give env
       (reverify_from env (pulSharedVariable (pxParameters t))
          (Suc (unat (ulExpectedValue t))) 0 (check_precondition t v w))"


section \<open>xAreSemaphoreTasksStillRunning\<close>

text \<open>
  The \<open>for\<close> loop over \<open>xTask\<close>.  The call is taken to run without a task
  changing \<open>sCheckVariables\<close> in the middle of it, so the two reads of
  \<open>sCheckVariables[xTask]\<close> in one iteration return the same value.
\<close>

function check_tasks :: "nat \<Rightarrow> BaseType_t \<Rightarrow> world \<Rightarrow> BaseType_t \<times> world" where
  "check_tasks xTask xReturn w =
     (if xTask < semtstNUM_TASKS then
        check_tasks (xTask + 1)
          (if sLastCheckVariables w ! xTask = sCheckVariables w ! xTask
           then pdFALSE else xReturn)
          (w\<lparr>sLastCheckVariables :=
               (sLastCheckVariables w)[xTask := sCheckVariables w ! xTask]\<rparr>)
      else (xReturn, w))"
  by pat_completeness auto
termination
  by (relation "measure (\<lambda>(xTask, xReturn, w). semtstNUM_TASKS - xTask)") auto

declare check_tasks.simps [simp del]

definition xAreSemaphoreTasksStillRunning :: "world \<Rightarrow> BaseType_t \<times> world" where
  "xAreSemaphoreTasksStillRunning w = check_tasks 0 pdTRUE w"

section \<open>Example inputs\<close>

text \<open>
  A pass in which the semaphore works and nothing interferes; one in which
  \<open>xSemaphoreGive\<close> fails; one in which another task writes 0 to the guarded
  variable just after this task has written 5.
\<close>

definition quiet :: cycle_env where
  "quiet = \<lparr>take_passes = True, interference = (\<lambda>c. None), give_passes = True\<rparr>"

definition give_fails :: cycle_env where
  "give_fails = \<lparr>take_passes = True, interference = (\<lambda>c. None), give_passes = False\<rparr>"

definition intruder :: cycle_env where
  "intruder = \<lparr>take_passes = True, interference = (\<lambda>c. if c = 5 then Some 0 else None),
                give_passes = True\<rparr>"

text \<open>
  A task of the polling group as \<open>prvSemaphoreTest_start\<close> leaves it, with check
  variable 0, and the same task after a fault.
\<close>

definition polling_task :: task where
  "polling_task =
     \<lparr>pxParameters = \<lparr>xSemaphore = 2, pulSharedVariable = 3, xBlockTime = 0\<rparr>,
      ulExpectedValue = 0xff, sError = False, sCheckVariableToUse = 0\<rparr>"

definition flagged_task :: task where
  "flagged_task = polling_task\<lparr>sError := True\<rparr>"

text \<open>The same task with check-variable index 4, as the fifth task to start gets it.\<close>

definition fifth_task :: task where
  "fifth_task = polling_task\<lparr>sCheckVariableToUse := 4\<rparr>"

text \<open>
  The world with the polling group's variable at rest (holding \<open>0xff\<close>), and with the
  variable left at 0.
\<close>

definition rest_world :: world where
  "rest_world = initial_world\<lparr>vars := [3 \<mapsto> 0xff]\<rparr>"

definition disturbed_world :: world where
  "disturbed_world = initial_world\<lparr>vars := [3 \<mapsto> 0]\<rparr>"

text \<open>
  A start-up in which every allocation succeeds, and one in which the allocation of
  the first group's shared variable fails.
\<close>

definition good_startup :: startup_env where
  "good_startup =
     \<lparr>first_group = \<lparr>malloc_params = 1, sem_handle = 2, malloc_var = 3,
                      created1 = True, created2 = True\<rparr>,
      second_group = \<lparr>malloc_params = 4, sem_handle = 5, malloc_var = 6,
                       created1 = True, created2 = True\<rparr>\<rparr>"

definition no_first_variable :: startup_env where
  "no_first_variable =
     \<lparr>first_group = \<lparr>malloc_params = 1, sem_handle = 2, malloc_var = NULL,
                      created1 = True, created2 = True\<rparr>,
      second_group = \<lparr>malloc_params = 4, sem_handle = 5, malloc_var = 6,
                       created1 = True, created2 = True\<rparr>\<rparr>"

definition no_first_semaphore :: startup_env where
  "no_first_semaphore =
     \<lparr>first_group = \<lparr>malloc_params = 1, sem_handle = NULL, malloc_var = 3,
                      created1 = True, created2 = True\<rparr>,
      second_group = \<lparr>malloc_params = 4, sem_handle = 5, malloc_var = 6,
                       created1 = True, created2 = True\<rparr>\<rparr>"

text \<open>
  The world that \<open>vStartSemaphoreTasks\<close> makes of the initial one when every
  allocation succeeds, the tick period is 1 ms and the caller's priority is 2.
\<close>

definition started_world :: world where
  "started_world = initial_world
     \<lparr>vars := [3 \<mapsto> 0xff, 6 \<mapsto> 0xfff],
      params := [1 \<mapsto> \<lparr>xSemaphore = 2, pulSharedVariable = 3, xBlockTime = 0\<rparr>,
                 4 \<mapsto> \<lparr>xSemaphore = 5, pulSharedVariable = 6, xBlockTime = 100\<rparr>],
      sems := [2 \<mapsto> True, 5 \<mapsto> True],
      tasks := [\<lparr>pcName = ''PolSEM1'', pvParameters = 1, uxPriority = 0\<rparr>,
                \<lparr>pcName = ''PolSEM2'', pvParameters = 1, uxPriority = 0\<rparr>,
                \<lparr>pcName = ''BlkSEM1'', pvParameters = 4, uxPriority = 2\<rparr>,
                \<lparr>pcName = ''BlkSEM2'', pvParameters = 4, uxPriority = 2\<rparr>]\<rparr>"


section \<open>The liveness check\<close>

lemma split_first: "k < n \<Longrightarrow> (\<forall>i. k \<le> i \<and> i < n \<longrightarrow> P i) = (P k \<and> (\<forall>i. k + 1 \<le> i \<and> i < (n::nat) \<longrightarrow> P i))"
proof (intro iffI conjI allI impI)
  assume "k < n" "\<forall>i. k \<le> i \<and> i < n \<longrightarrow> P i"
  then show "P k" by simp
next
  fix i assume "\<forall>i. k \<le> i \<and> i < n \<longrightarrow> P i" "k + 1 \<le> i \<and> i < n"
  then show "P i" by simp
next
  fix i assume a: "P k \<and> (\<forall>i. k + 1 \<le> i \<and> i < n \<longrightarrow> P i)" "k \<le> i \<and> i < n"
  show "P i"
  proof (cases "i = k")
    case True
    with a show ?thesis by simp
  next
    case False
    with a have "k + 1 \<le> i \<and> i < n" by simp
    with a show ?thesis by blast
  qed
qed

lemma check_tasks_return:
  "check_tasks k r w = (r', w') \<Longrightarrow> length (sLastCheckVariables w) = semtstNUM_TASKS \<Longrightarrow>
   (r' = pdTRUE) = (r = pdTRUE \<and> (\<forall>i. k \<le> i \<and> i < semtstNUM_TASKS \<longrightarrow>
       sLastCheckVariables w ! i \<noteq> sCheckVariables w ! i))"
proof (induction k r w rule: check_tasks.induct)
  case (1 xTask xReturn w)
  show ?case
  proof (cases "xTask < semtstNUM_TASKS")
    case True
    let ?w = "w\<lparr>sLastCheckVariables := (sLastCheckVariables w)[xTask := sCheckVariables w ! xTask]\<rparr>"
    let ?r = "if sLastCheckVariables w ! xTask = sCheckVariables w ! xTask then pdFALSE else xReturn"
    from True "1.prems" have step: "check_tasks (xTask + 1) ?r ?w = (r', w')"
      by (simp add: check_tasks.simps[of xTask])
    have ih: "(r' = pdTRUE) = (?r = pdTRUE \<and> (\<forall>i. xTask + 1 \<le> i \<and> i < semtstNUM_TASKS \<longrightarrow>
       sLastCheckVariables w ! i \<noteq> sCheckVariables w ! i))"
      using "1.IH"[OF True step] "1.prems" by simp
    have ne: "pdFALSE \<noteq> pdTRUE" by (simp add: pdTRUE_def pdFALSE_def)
    show ?thesis
      unfolding split_first[OF True] ih using ne by auto
  next
    case False
    with "1.prems" show ?thesis by (auto simp add: check_tasks.simps[of xTask])
  qed
qed

lemma check_tasks_other:
  "check_tasks k r w = (r', w') \<Longrightarrow>
   sCheckVariables w' = sCheckVariables w \<and> sNextCheckVariable w' = sNextCheckVariable w \<and>
   display w' = display w \<and> vars w' = vars w \<and> params w' = params w \<and> sems w' = sems w \<and>
   tasks w' = tasks w \<and> accesses w' = accesses w \<and> sched w' = sched w"
proof (induction k r w rule: check_tasks.induct)
  case (1 xTask xReturn w)
  show ?case
  proof (cases "xTask < semtstNUM_TASKS")
    case True
    with "1.prems" "1.IH" show ?thesis by (simp add: check_tasks.simps[of xTask])
  next
    case False
    with "1.prems" show ?thesis by (simp add: check_tasks.simps[of xTask])
  qed
qed

lemma check_tasks_snapshot:
  "check_tasks k r w = (r', w') \<Longrightarrow> length (sLastCheckVariables w) = semtstNUM_TASKS \<Longrightarrow>
   length (sCheckVariables w) = semtstNUM_TASKS \<Longrightarrow> k \<le> semtstNUM_TASKS \<Longrightarrow>
   sLastCheckVariables w' = take k (sLastCheckVariables w) @ drop k (sCheckVariables w)"
proof (induction k r w rule: check_tasks.induct)
  case (1 xTask xReturn w)
  show ?case
  proof (cases "xTask < semtstNUM_TASKS")
    case True
    let ?w = "w\<lparr>sLastCheckVariables := (sLastCheckVariables w)[xTask := sCheckVariables w ! xTask]\<rparr>"
    from True "1.prems" have "sLastCheckVariables w' = take (xTask + 1) (sLastCheckVariables ?w) @ drop (xTask + 1) (sCheckVariables ?w)"
      using "1.IH"[OF True] by (simp add: check_tasks.simps[of xTask])
    with True "1.prems" show ?thesis
      by (simp add: take_Suc_conv_app_nth Cons_nth_drop_Suc)
  next
    case False
    with "1.prems" show ?thesis by (simp add: check_tasks.simps[of xTask])
  qed
qed

lemma check_tasks_range:
  "check_tasks k r w = (r', w') \<Longrightarrow> r' = r \<or> r' = pdFALSE"
proof (induction k r w rule: check_tasks.induct)
  case (1 xTask xReturn w)
  show ?case
  proof (cases "xTask < semtstNUM_TASKS")
    case True
    with "1.prems" "1.IH" show ?thesis
      by (auto simp add: check_tasks.simps[of xTask] split: if_splits)
  next
    case False
    with "1.prems" show ?thesis by (simp add: check_tasks.simps[of xTask])
  qed
qed

lemma still_running_world:
  assumes "length (sCheckVariables w) = semtstNUM_TASKS"
      and "length (sLastCheckVariables w) = semtstNUM_TASKS"
      and "xAreSemaphoreTasksStillRunning w = (r, w')"
    shows "w' = w\<lparr>sLastCheckVariables := sCheckVariables w\<rparr>"
proof -
  from assms have c: "check_tasks 0 pdTRUE w = (r, w')"
    by (simp add: xAreSemaphoreTasksStillRunning_def)
  from check_tasks_snapshot[OF c] assms have "sLastCheckVariables w' = sCheckVariables w"
    by simp
  with check_tasks_other[OF c] show ?thesis by simp
qed

text \<open>
  C3.  A call of \<open>xAreSemaphoreTasksStillRunning\<close> returns \<open>pdTRUE\<close> or
  \<open>pdFALSE\<close>; it returns \<open>pdTRUE\<close> if and only if every one of the four check
  variables differs from the value the previous call stored for it; and whatever it
  returns, afterwards the stored values are the current values of all four check
  variables, nothing else having changed.
\<close>

theorem still_running_iff_all_changed:
  assumes "length (sCheckVariables w) = semtstNUM_TASKS"
      and "length (sLastCheckVariables w) = semtstNUM_TASKS"
      and "xAreSemaphoreTasksStillRunning w = (r, w')"
    shows "(r = pdTRUE \<or> r = pdFALSE) \<and>
           (r = pdTRUE) = (\<forall>i < semtstNUM_TASKS. sCheckVariables w ! i \<noteq> sLastCheckVariables w ! i) \<and>
           sLastCheckVariables w' = sCheckVariables w \<and>
           w' = w\<lparr>sLastCheckVariables := sCheckVariables w\<rparr>"
proof -
  from assms have c: "check_tasks 0 pdTRUE w = (r, w')"
    by (simp add: xAreSemaphoreTasksStillRunning_def)
  have 1: "r = pdTRUE \<or> r = pdFALSE" using check_tasks_range[OF c] .
  have 2: "(r = pdTRUE) = (\<forall>i < semtstNUM_TASKS. sCheckVariables w ! i \<noteq> sLastCheckVariables w ! i)"
    using check_tasks_return[OF c assms(2)] by auto
  have 3: "w' = w\<lparr>sLastCheckVariables := sCheckVariables w\<rparr>"
    using still_running_world[OF assms] .
  from 1 2 3 show ?thesis by simp
qed

theorem still_running_iff_all_changed_witness:
  "length (sCheckVariables (initial_world\<lparr>sCheckVariables := [1, 2, 3, 4]\<rparr>)) = semtstNUM_TASKS \<and>
   length (sLastCheckVariables (initial_world\<lparr>sCheckVariables := [1, 2, 3, 4]\<rparr>)) = semtstNUM_TASKS \<and>
   fst (xAreSemaphoreTasksStillRunning
      (initial_world\<lparr>sCheckVariables := [1, 2, 3, 4]\<rparr>)) = pdTRUE \<and>
   sLastCheckVariables (snd (xAreSemaphoreTasksStillRunning
      (initial_world\<lparr>sCheckVariables := [1, 2, 3, 4]\<rparr>))) = [1, 2, 3, 4]"
proof -
  let ?w = "initial_world\<lparr>sCheckVariables := [1, 2, 3, 4]\<rparr>"
  have changed: "\<forall>i < semtstNUM_TASKS. sCheckVariables ?w ! i \<noteq> sLastCheckVariables ?w ! i"
  proof (intro allI impI)
    fix i assume "i < semtstNUM_TASKS"
    then have "i = 0 \<or> i = 1 \<or> i = 2 \<or> i = 3" by (auto simp: semtstNUM_TASKS_def)
    then show "sCheckVariables ?w ! i \<noteq> sLastCheckVariables ?w ! i"
      by (auto simp: initial_world_def)
  qed
  have l: "length (sCheckVariables ?w) = semtstNUM_TASKS"
          "length (sLastCheckVariables ?w) = semtstNUM_TASKS"
    by (simp_all add: initial_world_def semtstNUM_TASKS_def)
  from still_running_iff_all_changed [OF l, of "fst (xAreSemaphoreTasksStillRunning ?w)"
     "snd (xAreSemaphoreTasksStillRunning ?w)"] changed l
  show ?thesis by (simp add: initial_world_def)
qed

text \<open>
  C4, as amended.  The call has one result for all four tasks.  When the check variable
  of some task \<open>i\<close> has the same value at two consecutive calls, the second call
  returns \<open>pdFALSE\<close>, whatever the check variables of the other tasks have done in
  between.
\<close>

theorem stalled_task_fails_whole_check:
  assumes "length (sCheckVariables w) = semtstNUM_TASKS"
      and "length (sLastCheckVariables w) = semtstNUM_TASKS"
      and "xAreSemaphoreTasksStillRunning w = (r1, w1)"
      and "length live2 = semtstNUM_TASKS"
      and "i < semtstNUM_TASKS"
      and "live2 ! i = sCheckVariables w ! i"
    shows "fst (xAreSemaphoreTasksStillRunning (w1\<lparr>sCheckVariables := live2\<rparr>)) = pdFALSE"
proof -
  let ?w2 = "w1\<lparr>sCheckVariables := live2\<rparr>"
  obtain r2 w3 where c: "xAreSemaphoreTasksStillRunning ?w2 = (r2, w3)"
    by (cases "xAreSemaphoreTasksStillRunning ?w2")
  from still_running_world[OF assms(1-3)] have w1: "w1 = w\<lparr>sLastCheckVariables := sCheckVariables w\<rparr>" .
  have l1: "length (sCheckVariables ?w2) = semtstNUM_TASKS" using assms by simp
  have l2: "length (sLastCheckVariables ?w2) = semtstNUM_TASKS" using assms w1 by simp
  from c have c': "check_tasks 0 pdTRUE ?w2 = (r2, w3)"
    by (simp add: xAreSemaphoreTasksStillRunning_def)
  have "sLastCheckVariables ?w2 ! i = sCheckVariables ?w2 ! i" using assms w1 by simp
  with check_tasks_return[OF c' l2] assms(5) have "r2 \<noteq> pdTRUE" by auto
  with check_tasks_range[OF c'] have "r2 = pdFALSE" by simp
  with c show ?thesis by simp
qed

theorem stalled_task_fails_whole_check_witness:
  "length (sCheckVariables (initial_world\<lparr>sCheckVariables := [7, 7, 7, 7]\<rparr>)) = semtstNUM_TASKS \<and>
   length (sLastCheckVariables (initial_world\<lparr>sCheckVariables := [7, 7, 7, 7]\<rparr>)) = semtstNUM_TASKS \<and>
   length [7, 8, 9, 9 :: short] = semtstNUM_TASKS \<and> 0 < semtstNUM_TASKS \<and>
   fst (xAreSemaphoreTasksStillRunning
     ((snd (xAreSemaphoreTasksStillRunning (initial_world\<lparr>sCheckVariables := [7, 7, 7, 7]\<rparr>)))
        \<lparr>sCheckVariables := [7, 8, 9, 9]\<rparr>)) = pdFALSE"
  using stalled_task_fails_whole_check [of "initial_world\<lparr>sCheckVariables := [7, 7, 7, 7]\<rparr>"
     "fst (xAreSemaphoreTasksStillRunning (initial_world\<lparr>sCheckVariables := [7, 7, 7, 7]\<rparr>))"
     "snd (xAreSemaphoreTasksStillRunning (initial_world\<lparr>sCheckVariables := [7, 7, 7, 7]\<rparr>))"
     "[7, 8, 9, 9]" 0]
  by (simp add: initial_world_def semtstNUM_TASKS_def)

text \<open>
  C4 as stated fails.  The first call stores 5 for every task; then task 0 stalls
  while tasks 1, 2 and 3 advance.  The second call returns \<open>pdFALSE\<close>, its only
  result: there is no separate answer \<open>pdTRUE\<close> for the group of tasks 2 and 3.
\<close>

theorem group_result_counterexample:
  "xAreSemaphoreTasksStillRunning (initial_world\<lparr>sCheckVariables := [5, 5, 5, 5]\<rparr>) =
     (pdTRUE, initial_world\<lparr>sCheckVariables := [5, 5, 5, 5],
                            sLastCheckVariables := [5, 5, 5, 5]\<rparr>) \<and>
   xAreSemaphoreTasksStillRunning
     (initial_world\<lparr>sCheckVariables := [5, 6, 6, 6], sLastCheckVariables := [5, 5, 5, 5]\<rparr>) =
     (pdFALSE, initial_world\<lparr>sCheckVariables := [5, 6, 6, 6],
                             sLastCheckVariables := [5, 6, 6, 6]\<rparr>) \<and>
   pdFALSE \<noteq> pdTRUE"
  by (simp add: xAreSemaphoreTasksStillRunning_def check_tasks.simps initial_world_def
        semtstNUM_TASKS_def pdTRUE_def pdFALSE_def)

section \<open>The counting loop\<close>

lemma count_up_returns:
  "E \<noteq> - 1 \<Longrightarrow> n = Suc (unat E) - unat c \<Longrightarrow>
   count_up env p E c st = Some (reverify_from env p n c st)"
proof (induction n arbitrary: c st)
  case 0
  then have "\<not> c \<le> E" by (simp add: word_le_nat_alt)
  with 0 show ?case by (subst count_up.simps) simp
next
  case (Suc n)
  then have le: "c \<le> E" by (simp add: word_le_nat_alt)
  with Suc.prems have "c \<noteq> - 1" by (metis word_order.extremum_unique)
  then have "1 + c \<noteq> 0" by (metis add.commute add_eq_0_iff)
  then have u: "unat (c + 1) = Suc (unat c)" using unatSuc[of c] by (simp add: add.commute)
  with Suc.prems have "n = Suc (unat E) - unat (c + 1)" by simp
  from Suc.IH[OF Suc.prems(1) this] le show ?case
    by (subst count_up.simps) simp
qed

text \<open>The loop returns for no other expected value.\<close>

lemma count_up_returns_only_below_max:
  assumes "count_up env p E c st = Some y"
  shows "E \<noteq> - 1"
proof (rule count_up.raw_induct[where P = "\<lambda>env p E c st y. E \<noteq> - 1", OF _ assms])
  fix f :: "cycle_env \<Rightarrow> addr \<Rightarrow> ulong \<Rightarrow> ulong \<Rightarrow> bool \<times> world \<Rightarrow> (bool \<times> world) option"
  fix env p E c st y
  assume ih: "\<And>env p E c st y. f env p E c st = Some y \<Longrightarrow> E \<noteq> - 1"
    and step: "(if c \<le> E then f env p E (c + 1) (reverify env p c st) else Some st) = Some y"
  show "E \<noteq> - 1"
  proof (cases "c \<le> E")
    case True
    with step have "f env p E (c + 1) (reverify env p c st) = Some y" by simp
    then show ?thesis by (rule ih)
  next
    case False
    then show ?thesis by auto
  qed
qed

lemma count_up_never_returns: "count_up env p (- 1) c st = None"
  using count_up_returns_only_below_max[of env p "- 1" c st]
  by (cases "count_up env p (- 1) c st") auto

lemma ex_less_Suc_shift:
  "(\<exists>i<Suc n. P (c + of_nat i)) = (P c \<or> (\<exists>i<n. P (c + 1 + of_nat i)))"
proof
  assume "\<exists>i<Suc n. P (c + of_nat i)"
  then obtain i where i: "i < Suc n" "P (c + of_nat i)" by blast
  show "P c \<or> (\<exists>i<n. P (c + 1 + of_nat i))"
  proof (cases i)
    case 0
    with i show ?thesis by simp
  next
    case (Suc j)
    with i have "j < n" "P (c + 1 + of_nat j)" by (simp_all add: add.assoc)
    then show ?thesis by blast
  qed
next
  assume "P c \<or> (\<exists>i<n. P (c + 1 + of_nat i))"
  then show "\<exists>i<Suc n. P (c + of_nat i)"
  proof
    assume "P c"
    then have "P (c + of_nat 0)" by simp
    then show ?thesis by blast
  next
    assume "\<exists>i<n. P (c + 1 + of_nat i)"
    then obtain i where "i < n" "P (c + 1 + of_nat i)" by blast
    then have "Suc i < Suc n" "P (c + of_nat (Suc i))" by (simp_all add: add.assoc)
    then show ?thesis by blast
  qed
qed

lemma ex_le_word_iff:
  "(\<exists>i<Suc (unat (E::'a::len word)). P (of_nat i)) = (\<exists>c\<le>E. P c)"
proof
  assume "\<exists>i<Suc (unat E). P (of_nat i)"
  then obtain i where i: "i \<le> unat E" "P (of_nat i)" by (auto simp: less_Suc_eq_le)
  have "unat (of_nat i :: 'a word) \<le> i" by (simp add: unat_of_nat)
  with i have "(of_nat i :: 'a word) \<le> E" by (simp add: word_le_nat_alt)
  with i show "\<exists>c\<le>E. P c" by blast
next
  assume "\<exists>c\<le>E. P c"
  then obtain c where c: "c \<le> E" "P c" by blast
  then have "unat c < Suc (unat E)" "P (of_nat (unat c))" by (simp_all add: word_le_nat_alt)
  then show "\<exists>i<Suc (unat E). P (of_nat i)" by blast
qed

lemma reverify_sError [simp]:
  "fst (reverify env p c (e, w)) = (e \<or> readback env c \<noteq> c)"
  by (simp add: Let_def)

lemma reverify_display [simp]:
  "display (snd (reverify env p c (e, w))) =
     display w @ (if \<not> e \<and> readback env c \<noteq> c then [pcPollingSemaphoreTaskError] else [])"
  by (simp add: Let_def vPrintDisplayMessage_def)

lemma reverify_vars [simp]:
  "vars (snd (reverify env p c (e, w))) = (vars w)(p \<mapsto> readback env c)"
  by (simp add: Let_def vPrintDisplayMessage_def)

lemma reverify_accesses [simp]:
  "accesses (snd (reverify env p c (e, w))) = accesses w @ [Wr c, Rd (readback env c)]"
  by (simp add: Let_def vPrintDisplayMessage_def)

lemma reverify_frame [simp]:
  "sCheckVariables (snd (reverify env p c (e, w))) = sCheckVariables w"
  "sNextCheckVariable (snd (reverify env p c (e, w))) = sNextCheckVariable w"
  "sLastCheckVariables (snd (reverify env p c (e, w))) = sLastCheckVariables w"
  "params (snd (reverify env p c (e, w))) = params w"
  "sems (snd (reverify env p c (e, w))) = sems w"
  "tasks (snd (reverify env p c (e, w))) = tasks w"
  "sched (snd (reverify env p c (e, w))) = sched w"
  by (simp_all add: Let_def vPrintDisplayMessage_def)

declare reverify.simps [simp del]

lemma reverify_from_Suc:
  "reverify_from env p (Suc n) c (e, w) =
     reverify_from env p n (c + 1)
       (fst (reverify env p c (e, w)), snd (reverify env p c (e, w)))"
  by (simp only: reverify_from.simps prod.collapse)

lemma reverify_from_frame:
  "sCheckVariables (snd (reverify_from env p n c (e, w))) = sCheckVariables w \<and>
   sNextCheckVariable (snd (reverify_from env p n c (e, w))) = sNextCheckVariable w \<and>
   sLastCheckVariables (snd (reverify_from env p n c (e, w))) = sLastCheckVariables w \<and>
   params (snd (reverify_from env p n c (e, w))) = params w \<and>
   sems (snd (reverify_from env p n c (e, w))) = sems w \<and>
   tasks (snd (reverify_from env p n c (e, w))) = tasks w \<and>
   sched (snd (reverify_from env p n c (e, w))) = sched w"
proof (induction n arbitrary: c e w)
  case 0
  then show ?case by simp
next
  case (Suc n)
  show ?case unfolding reverify_from_Suc by (simp add: Suc.IH)
qed

lemma reverify_from_sError:
  "fst (reverify_from env p n c (e, w)) =
     (e \<or> (\<exists>i<n. readback env (c + of_nat i) \<noteq> c + of_nat i))"
proof (induction n arbitrary: c e w)
  case 0
  then show ?case by simp
next
  case (Suc n)
  show ?case
    unfolding ex_less_Suc_shift[where P = "\<lambda>x. readback env x \<noteq> x"] reverify_from_Suc
    by (simp add: Suc.IH)
qed

lemma reverify_from_display:
  "display (snd (reverify_from env p n c (e, w))) =
     display w @ (if \<not> e \<and> (\<exists>i<n. readback env (c + of_nat i) \<noteq> c + of_nat i)
                  then [pcPollingSemaphoreTaskError] else [])"
proof (induction n arbitrary: c e w)
  case 0
  then show ?case by simp
next
  case (Suc n)
  show ?case
    unfolding ex_less_Suc_shift[where P = "\<lambda>x. readback env x \<noteq> x"] reverify_from_Suc
    by (simp add: Suc.IH)
qed

lemma reverify_from_vars:
  "vars (snd (reverify_from env p (Suc n) c (e, w))) = (vars w)(p \<mapsto> readback env (c + of_nat n))"
proof (induction n arbitrary: c e w)
  case 0
  then show ?case by simp
next
  case (Suc n)
  show ?case
    unfolding reverify_from_Suc[of env p "Suc n"]
    by (simp only: Suc.IH) (auto simp add: add.assoc)
qed

lemma reverify_from_accesses:
  "accesses (snd (reverify_from env p n c (e, w))) =
     accesses w @ concat (map (\<lambda>i. [Wr (c + of_nat i), Rd (readback env (c + of_nat i))]) [0..<n])"
proof (induction n arbitrary: c e w)
  case 0
  then show ?case by simp
next
  case (Suc n)
  have shift: "map (\<lambda>i. [Wr (c + of_nat i), Rd (readback env (c + of_nat i))]) [0..<Suc n]
     = [Wr c, Rd (readback env c)] #
       map (\<lambda>i. [Wr (c + 1 + of_nat i), Rd (readback env (c + 1 + of_nat i))]) [0..<n]"
    by (simp only: upt_conv_Cons[of 0 "Suc n"] map_Suc_upt[symmetric]) (simp add: add.assoc)
  show ?case
    unfolding reverify_from_Suc shift by (simp only: Suc.IH) simp
qed

section \<open>One pass of the task\<close>

lemma reverify_fault_iff:
  "reverify_fault env t =
     (\<exists>i<Suc (unat (ulExpectedValue t)). readback env (0 + of_nat i) \<noteq> 0 + of_nat i)"
  using ex_le_word_iff[of "ulExpectedValue t" "\<lambda>c. readback env c \<noteq> c"]
  by (simp add: reverify_fault_def)

lemma critical_section_sError:
  "fst (critical_section env t v w) =
     (sError t \<or> v \<noteq> ulExpectedValue t \<or> reverify_fault env t \<or> \<not> give_passes env)"
  unfolding critical_section_def check_give_def check_precondition_def reverify_fault_iff
  by (simp add: reverify_from_sError del: reverify_from.simps)

lemma critical_section_display:
  "display (snd (critical_section env t v w)) =
     display w @
     (if v \<noteq> ulExpectedValue t then [pcPollingSemaphoreTaskError] else []) @
     (if \<not> sError t \<and> v = ulExpectedValue t \<and> reverify_fault env t
      then [pcPollingSemaphoreTaskError] else []) @
     (if \<not> give_passes env then [pcPollingSemaphoreTaskError] else [])"
  unfolding critical_section_def check_give_def check_precondition_def reverify_fault_iff
  by (simp add: reverify_from_display vPrintDisplayMessage_def del: reverify_from.simps)

lemma critical_section_vars:
  "vars (snd (critical_section env t v w)) =
     (vars w)(pulSharedVariable (pxParameters t) \<mapsto> readback env (ulExpectedValue t))"
  unfolding critical_section_def check_give_def check_precondition_def
  by (simp add: reverify_from_vars vPrintDisplayMessage_def del: reverify_from.simps)

lemma critical_section_accesses:
  "accesses (snd (critical_section env t v w)) = accesses w @ probe env (ulExpectedValue t)"
  unfolding critical_section_def check_give_def check_precondition_def probe_def
  by (simp add: reverify_from_accesses vPrintDisplayMessage_def del: reverify_from.simps)

lemma critical_section_frame:
  "sCheckVariables (snd (critical_section env t v w)) = sCheckVariables w"
  "sNextCheckVariable (snd (critical_section env t v w)) = sNextCheckVariable w"
  "sLastCheckVariables (snd (critical_section env t v w)) = sLastCheckVariables w"
  "params (snd (critical_section env t v w)) = params w"
  "sems (snd (critical_section env t v w)) = sems w"
  "tasks (snd (critical_section env t v w)) = tasks w"
  "sched (snd (critical_section env t v w)) = sched w"
  unfolding critical_section_def check_give_def check_precondition_def
  by (simp_all add: reverify_from_frame vPrintDisplayMessage_def del: reverify_from.simps)

lemma critical_section_world:
  "snd (critical_section env t v w) =
     w\<lparr>display := display w @
         (if v \<noteq> ulExpectedValue t then [pcPollingSemaphoreTaskError] else []) @
         (if \<not> sError t \<and> v = ulExpectedValue t \<and> reverify_fault env t
          then [pcPollingSemaphoreTaskError] else []) @
         (if \<not> give_passes env then [pcPollingSemaphoreTaskError] else []),
       vars := (vars w)(pulSharedVariable (pxParameters t) \<mapsto> readback env (ulExpectedValue t)),
       accesses := accesses w @ probe env (ulExpectedValue t)\<rparr>"
  by (rule world.equality)
     (simp_all add: critical_section_display critical_section_vars critical_section_accesses
        critical_section_frame)

lemma cycle_taken:
  assumes "take_passes env"
      and "vars w (pulSharedVariable (pxParameters t)) = Some v"
      and "ulExpectedValue t \<noteq> - 1"
    shows "prvSemaphoreTest_cycle env t w =
             bind_result (signal_progress t (critical_section env t v w)) (\<lambda>w'.
               Ok (t\<lparr>sError := fst (critical_section env t v w)\<rparr>,
                   vTaskDelay (xBlockTime (pxParameters t) * semtstDELAY_FACTOR) w'))"
  using assms
  by (simp add: prvSemaphoreTest_cycle_def critical_section_def
        count_up_returns[OF assms(3) refl] del: reverify_from.simps)

lemma cycle_not_taken:
  "\<not> take_passes env \<Longrightarrow>
   prvSemaphoreTest_cycle env t w =
     Ok (t, if xBlockTime (pxParameters t) = 0 then taskYIELD w else w)"
  by (simp add: prvSemaphoreTest_cycle_def)

lemma cycle_result:
  assumes "take_passes env"
      and "vars w (pulSharedVariable (pxParameters t)) = Some v"
      and "ulExpectedValue t \<noteq> - 1"
    shows "prvSemaphoreTest_cycle env t w =
       (if sError t \<or> v \<noteq> ulExpectedValue t \<or> reverify_fault env t \<or> \<not> give_passes env
        then Ok (t\<lparr>sError := True\<rparr>,
                 vTaskDelay (xBlockTime (pxParameters t) * semtstDELAY_FACTOR)
                   (snd (critical_section env t v w)))
        else if sint (sCheckVariableToUse t) < int semtstNUM_TASKS
        then (if 0 \<le> sint (sCheckVariableToUse t) \<and>
                 nat (sint (sCheckVariableToUse t)) < length (sCheckVariables w)
              then Ok (t\<lparr>sError := False\<rparr>,
                       vTaskDelay (xBlockTime (pxParameters t) * semtstDELAY_FACTOR)
                         ((snd (critical_section env t v w))
                            \<lparr>sCheckVariables := (sCheckVariables w)
                               [nat (sint (sCheckVariableToUse t)) :=
                                  sCheckVariables w ! nat (sint (sCheckVariableToUse t)) + 1]\<rparr>))
              else Fault IndexOutOfBounds)
        else Ok (t\<lparr>sError := False\<rparr>,
                 vTaskDelay (xBlockTime (pxParameters t) * semtstDELAY_FACTOR)
                   (snd (critical_section env t v w))))"
  unfolding cycle_taken[OF assms]
  by (simp add: signal_progress_def increment_check_variable_def critical_section_sError
        critical_section_frame)

lemma quiet_readback [simp]: "readback quiet c = c"
  by (simp add: readback_def quiet_def)

lemma give_fails_readback [simp]: "readback give_fails c = c"
  by (simp add: readback_def give_fails_def)

lemma quiet_no_reverify_fault [simp]: "\<not> reverify_fault quiet t"
  by (simp add: reverify_fault_def)

lemma give_fails_no_reverify_fault [simp]: "\<not> reverify_fault give_fails t"
  by (simp add: reverify_fault_def)

lemma intruder_reverify_fault [simp]:
  "reverify_fault intruder polling_task" "reverify_fault intruder flagged_task"
  unfolding reverify_fault_def polling_task_def flagged_task_def
  by (rule exI[of _ 5], simp add: readback_def intruder_def)+

lemma intruder_readback_last [simp]: "readback intruder 0xff = 0xff"
  by (simp add: readback_def intruder_def)

section \<open>Signed reading of a check variable\<close>

lemma sint_short_succ:
  fixes x :: short
  assumes "x \<noteq> 0x7fff"
  shows "sint (x + 1) = sint x + 1"
proof -
  have r: "- (2 ^ 15) \<le> sint x" "sint x < 2 ^ 15"
    using sint_ge[of x] sint_lt[of x] by simp_all
  have "sint x \<noteq> 2 ^ 15 - 1"
  proof
    assume "sint x = 2 ^ 15 - 1"
    then have "sint x = sint (0x7fff :: short)" by simp
    then have "x = 0x7fff" by (rule signed_word_eqI)
    with assms show False by simp
  qed
  with r have "- (2 ^ 15) \<le> sint x + 1" "sint x + 1 < 2 ^ 15" by simp_all
  then have "signed_take_bit 15 (sint x + 1) = sint x + 1"
    by (intro signed_take_bit_int_eq_self) simp_all
  then show ?thesis by (simp add: sint_word_add)
qed

section \<open>What a pass does to the task and to the shared state\<close>

lemma example_env_simps [simp]:
  "take_passes quiet" "give_passes quiet"
  "take_passes give_fails" "\<not> give_passes give_fails"
  "take_passes intruder" "give_passes intruder"
  by (simp_all add: quiet_def give_fails_def intruder_def)

lemma example_task_simps [simp]:
  "pxParameters polling_task = \<lparr>xSemaphore = 2, pulSharedVariable = 3, xBlockTime = 0\<rparr>"
  "ulExpectedValue polling_task = 0xff" "\<not> sError polling_task"
  "sCheckVariableToUse polling_task = 0"
  "pxParameters flagged_task = \<lparr>xSemaphore = 2, pulSharedVariable = 3, xBlockTime = 0\<rparr>"
  "ulExpectedValue flagged_task = 0xff" "sError flagged_task"
  "sCheckVariableToUse flagged_task = 0"
  "pxParameters fifth_task = \<lparr>xSemaphore = 2, pulSharedVariable = 3, xBlockTime = 0\<rparr>"
  "ulExpectedValue fifth_task = 0xff" "\<not> sError fifth_task"
  "sCheckVariableToUse fifth_task = 4"
  by (simp_all add: polling_task_def flagged_task_def fifth_task_def)

lemma cycle_Ok_vars:
  "prvSemaphoreTest_cycle env t w = Ok (t', w') \<Longrightarrow> take_passes env \<Longrightarrow>
   \<exists>v. vars w (pulSharedVariable (pxParameters t)) = Some v"
  by (auto simp: prvSemaphoreTest_cycle_def split: option.splits)

lemma cycle_Ok_expected:
  "prvSemaphoreTest_cycle env t w = Ok (t', w') \<Longrightarrow> take_passes env \<Longrightarrow>
   ulExpectedValue t \<noteq> - 1"
  by (auto simp: prvSemaphoreTest_cycle_def split: option.splits
        dest: count_up_returns_only_below_max)

lemma cycle_diverges:
  "take_passes env \<Longrightarrow> vars w (pulSharedVariable (pxParameters t)) = Some v \<Longrightarrow>
   ulExpectedValue t = - 1 \<Longrightarrow> prvSemaphoreTest_cycle env t w = Diverges"
  by (simp add: prvSemaphoreTest_cycle_def count_up_never_returns)

lemma cycle_task:
  assumes "prvSemaphoreTest_cycle env t w = Ok (t', w')"
  shows "t' = t\<lparr>sError := sError t \<or> faulted env t w\<rparr>"
proof (cases "take_passes env")
  case False
  with assms show ?thesis by (simp add: cycle_not_taken faulted_def)
next
  case True
  from cycle_Ok_vars[OF assms True] obtain v
    where v: "vars w (pulSharedVariable (pxParameters t)) = Some v" by blast
  from assms show ?thesis
    unfolding cycle_result[OF True v cycle_Ok_expected[OF assms True]]
    using True v
    by (auto simp: faulted_def precondition_fault_def release_fault_def split: if_splits)
qed

lemma cycle_check_variables:
  assumes "prvSemaphoreTest_cycle env t w = Ok (t', w')"
  shows "sCheckVariables w' =
     (if take_passes env \<and> \<not> sError t' \<and> sint (sCheckVariableToUse t) < int semtstNUM_TASKS
      then (sCheckVariables w)[nat (sint (sCheckVariableToUse t)) :=
              sCheckVariables w ! nat (sint (sCheckVariableToUse t)) + 1]
      else sCheckVariables w)"
proof (cases "take_passes env")
  case False
  with assms show ?thesis by (auto simp add: cycle_not_taken taskYIELD_def)
next
  case True
  from cycle_Ok_vars[OF assms True] obtain v
    where v: "vars w (pulSharedVariable (pxParameters t)) = Some v" by blast
  from assms show ?thesis
    unfolding cycle_result[OF True v cycle_Ok_expected[OF assms True]]
    using True
    by (auto simp: critical_section_frame vTaskDelay_def split: if_splits)
qed

lemma cycle_display:
  assumes "prvSemaphoreTest_cycle env t w = Ok (t', w')"
  shows "display w' = display w @
     (if take_passes env \<and> precondition_fault t w then [pcPollingSemaphoreTaskError] else []) @
     (if take_passes env \<and> \<not> sError t \<and> \<not> precondition_fault t w \<and> reverify_fault env t
      then [pcPollingSemaphoreTaskError] else []) @
     (if take_passes env \<and> release_fault env then [pcPollingSemaphoreTaskError] else [])"
proof (cases "take_passes env")
  case False
  with assms show ?thesis by (auto simp add: cycle_not_taken taskYIELD_def)
next
  case True
  from cycle_Ok_vars[OF assms True] obtain v
    where v: "vars w (pulSharedVariable (pxParameters t)) = Some v" by blast
  from assms show ?thesis
    unfolding cycle_result[OF True v cycle_Ok_expected[OF assms True]]
    using True v
    by (auto simp: critical_section_display vTaskDelay_def precondition_fault_def
          release_fault_def split: if_splits)
qed

lemma cycle_vars:
  assumes "prvSemaphoreTest_cycle env t w = Ok (t', w')"
      and "take_passes env"
  shows "vars w' = (vars w)(pulSharedVariable (pxParameters t) \<mapsto> readback env (ulExpectedValue t))"
proof -
  from cycle_Ok_vars[OF assms] obtain v
    where v: "vars w (pulSharedVariable (pxParameters t)) = Some v" by blast
  from assms(1) show ?thesis
    unfolding cycle_result[OF assms(2) v cycle_Ok_expected[OF assms]]
    by (auto simp: critical_section_vars vTaskDelay_def split: if_splits)
qed

section \<open>Passes on the example inputs\<close>

lemma example_world_simps [simp]:
  "vars rest_world = [3 \<mapsto> 0xff]" "vars disturbed_world = [3 \<mapsto> 0]"
  "sCheckVariables rest_world = [0, 0, 0, 0]" "sCheckVariables disturbed_world = [0, 0, 0, 0]"
  "display rest_world = []" "display disturbed_world = []"
  "accesses rest_world = []" "accesses disturbed_world = []"
  "sched rest_world = []" "sched disturbed_world = []"
  by (simp_all add: rest_world_def disturbed_world_def initial_world_def)

lemmas pass_eval = critical_section_world vTaskDelay_def semtstDELAY_FACTOR_def
  semtstNUM_TASKS_def flagged_task_def[symmetric]

lemma pass_quiet_disturbed:
  "prvSemaphoreTest_cycle quiet polling_task disturbed_world =
   Ok (flagged_task, disturbed_world\<lparr>display := [pcPollingSemaphoreTaskError],
        vars := [3 \<mapsto> 0xff], accesses := probe quiet 0xff, sched := [TaskDelay 0]\<rparr>)"
  by (subst cycle_result[where v = 0]) (simp_all add: pass_eval)

lemma pass_quiet_flagged:
  "prvSemaphoreTest_cycle quiet flagged_task
     (disturbed_world\<lparr>display := [pcPollingSemaphoreTaskError],
        vars := [3 \<mapsto> 0xff], accesses := probe quiet 0xff, sched := [TaskDelay 0]\<rparr>) =
   Ok (flagged_task, disturbed_world\<lparr>display := [pcPollingSemaphoreTaskError],
        vars := [3 \<mapsto> 0xff], accesses := probe quiet 0xff @ probe quiet 0xff,
        sched := [TaskDelay 0, TaskDelay 0]\<rparr>)"
  by (subst cycle_result[where v = "0xff"]) (simp_all add: pass_eval)

lemma pass_quiet_rest:
  "prvSemaphoreTest_cycle quiet polling_task rest_world =
   Ok (polling_task, rest_world\<lparr>sCheckVariables := [1, 0, 0, 0],
        accesses := probe quiet 0xff, sched := [TaskDelay 0]\<rparr>)"
  by (subst cycle_result[where v = "0xff"]) (simp_all add: pass_eval)

lemma pass_give_fails_disturbed:
  "prvSemaphoreTest_cycle give_fails polling_task disturbed_world =
   Ok (flagged_task, disturbed_world\<lparr>display :=
          [pcPollingSemaphoreTaskError, pcPollingSemaphoreTaskError],
        vars := [3 \<mapsto> 0xff], accesses := probe give_fails 0xff, sched := [TaskDelay 0]\<rparr>)"
  by (subst cycle_result[where v = 0]) (simp_all add: pass_eval)

lemma pass_intruder_flagged:
  "prvSemaphoreTest_cycle intruder flagged_task rest_world =
   Ok (flagged_task, rest_world\<lparr>accesses := probe intruder 0xff, sched := [TaskDelay 0]\<rparr>)"
  by (subst cycle_result[where v = "0xff"]) (simp_all add: pass_eval)

lemma pass_quiet_wrap:
  "prvSemaphoreTest_cycle quiet polling_task (rest_world\<lparr>sCheckVariables := [0x7fff, 0, 0, 0]\<rparr>) =
   Ok (polling_task, rest_world\<lparr>sCheckVariables := [0x8000, 0, 0, 0],
        accesses := probe quiet 0xff, sched := [TaskDelay 0]\<rparr>)"
  by (subst cycle_result[where v = "0xff"]) (simp_all add: pass_eval)

lemma pass_quiet_fifth:
  "prvSemaphoreTest_cycle quiet fifth_task rest_world =
   Ok (fifth_task, rest_world\<lparr>accesses := probe quiet 0xff, sched := [TaskDelay 0]\<rparr>)"
  by (subst cycle_result[where v = "0xff"]) (simp_all add: pass_eval)

section \<open>The counting loop without interference\<close>

lemma count_up_world:
  assumes "E \<noteq> - 1"
  shows "count_up env p E 0 (e, w) =
     Some (e \<or> (\<exists>c. c \<le> E \<and> readback env c \<noteq> c),
           w\<lparr>display := display w @
                (if \<not> e \<and> (\<exists>c. c \<le> E \<and> readback env c \<noteq> c)
                 then [pcPollingSemaphoreTaskError] else []),
              vars := (vars w)(p \<mapsto> readback env E),
              accesses := accesses w @ probe env E\<rparr>)"
proof -
  let ?r = "reverify_from env p (Suc (unat E)) 0 (e, w)"
  have ex: "(\<exists>i<Suc (unat E). readback env (of_nat i) \<noteq> of_nat i)
            = (\<exists>c. c \<le> E \<and> readback env c \<noteq> c)"
    using ex_le_word_iff[of E "\<lambda>c. readback env c \<noteq> c"] by simp
  have 1: "fst ?r = (e \<or> (\<exists>c. c \<le> E \<and> readback env c \<noteq> c))"
    unfolding reverify_from_sError add_0 ex ..
  have d: "display (snd ?r) = display w @
                (if \<not> e \<and> (\<exists>c. c \<le> E \<and> readback env c \<noteq> c)
                 then [pcPollingSemaphoreTaskError] else [])"
    unfolding reverify_from_display add_0 ex ..
  have v: "vars (snd ?r) = (vars w)(p \<mapsto> readback env E)"
    unfolding reverify_from_vars by simp
  have a: "accesses (snd ?r) = accesses w @ probe env E"
    unfolding reverify_from_accesses probe_def add_0 ..
  have 2: "snd ?r = w\<lparr>display := display w @
                (if \<not> e \<and> (\<exists>c. c \<le> E \<and> readback env c \<noteq> c)
                 then [pcPollingSemaphoreTaskError] else []),
              vars := (vars w)(p \<mapsto> readback env E),
              accesses := accesses w @ probe env E\<rparr>"
    by (rule world.equality)
       (simp_all add: d v a reverify_from_frame del: reverify_from.simps)
  have "count_up env p E 0 (e, w) = Some ?r"
    using count_up_returns[OF assms, of "Suc (unat E)" 0] by simp
  also have "?r = (fst ?r, snd ?r)" by simp
  finally show ?thesis unfolding 1 2 .
qed

lemma uninterfered_probe:
  assumes "\<forall>c. c \<le> E \<longrightarrow> interference env c = None"
  shows "probe env E = concat (map (\<lambda>i. [Wr (of_nat i), Rd (of_nat i)]) [0..<Suc (unat E)])"
proof -
  have "\<And>i. i < Suc (unat E) \<Longrightarrow> readback env (of_nat i) = of_nat i"
  proof -
    fix i assume "i < Suc (unat E)"
    moreover have "unat (of_nat i :: ulong) \<le> i" by (simp add: unat_of_nat)
    ultimately have "(of_nat i :: ulong) \<le> E" by (simp add: word_le_nat_alt)
    with assms show "readback env (of_nat i) = of_nat i" by (simp add: readback_def)
  qed
  then have "map (\<lambda>i. [Wr (of_nat i), Rd (readback env (of_nat i))]) [0..<Suc (unat E)]
           = map (\<lambda>i. [Wr (of_nat i), Rd (of_nat i)]) [0..<Suc (unat E)]"
    by (intro map_cong) (auto simp: less_Suc_eq)
  then show ?thesis unfolding probe_def by (rule arg_cong)
qed

text \<open>
  C6.  Take a pass of a task with expected value \<open>E\<close> (below \<open>0xffffffff\<close>)
  that obtains the semaphore and in which no other task writes the guarded variable
  between a write and its re-read.  Its counting loop, from whatever state it starts,
  returns; it writes 0, 1, ..., \<open>E\<close> in this order, each write followed by a re-read
  that returns the value just written; it leaves the fault flag and everything else
  as they were, and the variable holding \<open>E\<close>.  These are the accesses of the whole
  pass, and when the pass ends the variable holds \<open>E\<close>: the value the next holder
  of the semaphore expects to find.
\<close>

theorem counting_loop_restores_rest_value:
  assumes "ulExpectedValue t \<noteq> - 1"
      and "\<forall>c. c \<le> ulExpectedValue t \<longrightarrow> interference env c = None"
      and "take_passes env"
      and "prvSemaphoreTest_cycle env t w = Ok (t', w')"
    shows "count_up env (pulSharedVariable (pxParameters t)) (ulExpectedValue t) 0 (e, w0) =
             Some (e, w0\<lparr>vars := (vars w0)(pulSharedVariable (pxParameters t) \<mapsto> ulExpectedValue t),
                         accesses := accesses w0 @
                           concat (map (\<lambda>i. [Wr (of_nat i), Rd (of_nat i)])
                                     [0..<Suc (unat (ulExpectedValue t))])\<rparr>) \<and>
           accesses w' = accesses w @
              concat (map (\<lambda>i. [Wr (of_nat i), Rd (of_nat i)])
                        [0..<Suc (unat (ulExpectedValue t))]) \<and>
           vars w' (pulSharedVariable (pxParameters t)) = Some (ulExpectedValue t)"
proof -
  let ?E = "ulExpectedValue t"
  have rb: "\<And>c. c \<le> ?E \<Longrightarrow> readback env c = c"
    using assms(2) by (simp add: readback_def)
  then have nf: "(\<exists>c. c \<le> ?E \<and> readback env c \<noteq> c) = False" by blast
  have 1: "count_up env (pulSharedVariable (pxParameters t)) ?E 0 (e, w0) =
             Some (e, w0\<lparr>vars := (vars w0)(pulSharedVariable (pxParameters t) \<mapsto> ?E),
                         accesses := accesses w0 @
                           concat (map (\<lambda>i. [Wr (of_nat i), Rd (of_nat i)]) [0..<Suc (unat ?E)])\<rparr>)"
    unfolding count_up_world[OF assms(1)] nf uninterfered_probe[OF assms(2)]
    using rb[of ?E] by simp
  from cycle_Ok_vars[OF assms(4,3)] obtain v
    where v: "vars w (pulSharedVariable (pxParameters t)) = Some v" by blast
  from assms(4) have 2: "accesses w' = accesses w @ probe env ?E"
    unfolding cycle_result[OF assms(3) v assms(1)]
    by (auto simp: critical_section_accesses vTaskDelay_def split: if_splits)
  have 3: "vars w' (pulSharedVariable (pxParameters t)) = Some ?E"
    using cycle_vars[OF assms(4,3)] rb[of ?E] by simp
  from 1 2 3 uninterfered_probe[OF assms(2)] show ?thesis by simp
qed

theorem counting_loop_restores_rest_value_witness:
  "ulExpectedValue polling_task \<noteq> - 1 \<and> take_passes quiet \<and>
   count_up quiet 3 0xff 0 (False, disturbed_world) =
     Some (False, disturbed_world\<lparr>vars := [3 \<mapsto> 0xff],
             accesses := concat (map (\<lambda>i. [Wr (of_nat i), Rd (of_nat i)]) [0..<Suc (unat (0xff :: ulong))])\<rparr>) \<and>
   vars (disturbed_world\<lparr>display := [pcPollingSemaphoreTaskError],
        vars := [3 \<mapsto> 0xff], accesses := probe quiet 0xff, sched := [TaskDelay 0]\<rparr>) 3 = Some 0xff"
  using counting_loop_restores_rest_value [of polling_task quiet disturbed_world flagged_task
     "disturbed_world\<lparr>display := [pcPollingSemaphoreTaskError],
        vars := [3 \<mapsto> 0xff], accesses := probe quiet 0xff, sched := [TaskDelay 0]\<rparr>" False disturbed_world]
    pass_quiet_disturbed
  by (simp add: quiet_def[THEN arg_cong[of _ _ interference]])

section \<open>The fault flag\<close>

lemma run_task:
  "sError t \<Longrightarrow> prvSemaphoreTest_run pss t w = Ok (t', w') \<Longrightarrow> t' = t"
proof (induction pss arbitrary: t w)
  case Nil
  then show ?case by simp
next
  case (Cons ps pss)
  from Cons.prems(2) obtain t1 w1
    where c: "prvSemaphoreTest_cycle (pass_env ps) t (others ps w) = Ok (t1, w1)"
      and r: "prvSemaphoreTest_run pss t1 w1 = Ok (t', w')"
    by (cases "prvSemaphoreTest_cycle (pass_env ps) t (others ps w)") auto
  from cycle_task[OF c] Cons.prems have "t1 = t" by simp
  with Cons.IH[OF _ r] Cons.prems show ?case by simp
qed

lemma example_faults [simp]:
  "faulted quiet polling_task disturbed_world"
  "\<not> faulted quiet polling_task rest_world"
  "precondition_fault polling_task disturbed_world"
  "release_fault give_fails"
  by (simp_all add: faulted_def precondition_fault_def release_fault_def)

lemma pass_intruder_polling:
  "prvSemaphoreTest_cycle intruder polling_task rest_world =
   Ok (flagged_task, rest_world\<lparr>display := [pcPollingSemaphoreTaskError],
        accesses := probe intruder 0xff, sched := [TaskDelay 0]\<rparr>)"
  by (subst cycle_result[where v = "0xff"]) (simp_all add: pass_eval)

text \<open>
  C1, as amended.  The fault flag is never cleared.  A pass in which a fault occurs
  sets it and leaves the check variables as they were; after any further passes of
  the task the flag is still set; and every pass after that, also one in which no fault
  occurs, leaves the flag set and the check variables as they were.
\<close>

theorem fault_flag_is_sticky:
  assumes "prvSemaphoreTest_cycle env t w = Ok (t1, w1)"
      and "faulted env t w"
      and "prvSemaphoreTest_run pss t1 wa = Ok (t2, w2)"
      and "prvSemaphoreTest_cycle env' t2 wb = Ok (t3, w3)"
    shows "sError t1 \<and> sCheckVariables w1 = sCheckVariables w \<and>
           sError t2 \<and> sError t3 \<and> sCheckVariables w3 = sCheckVariables wb"
proof -
  from cycle_task[OF assms(1)] assms(2) have e1: "sError t1" by simp
  from cycle_check_variables[OF assms(1)] e1
  have c1: "sCheckVariables w1 = sCheckVariables w" by simp
  from run_task[OF e1 assms(3)] e1 have e2: "sError t2" by simp
  from cycle_task[OF assms(4)] e2 have e3: "sError t3" by simp
  from cycle_check_variables[OF assms(4)] e3
  have c3: "sCheckVariables w3 = sCheckVariables wb" by simp
  from e1 c1 e2 e3 c3 show ?thesis by simp
qed

theorem fault_flag_is_sticky_witness:
  "faulted quiet polling_task disturbed_world \<and>
   sError flagged_task \<and>
   sCheckVariables (disturbed_world\<lparr>display := [pcPollingSemaphoreTaskError],
        vars := [3 \<mapsto> 0xff], accesses := probe quiet 0xff @ probe quiet 0xff,
        sched := [TaskDelay 0, TaskDelay 0]\<rparr>) = [0, 0, 0, 0]"
  using fault_flag_is_sticky [where env = quiet and t = polling_task and w = disturbed_world
     and ?t1.0 = flagged_task
     and ?w1.0 = "disturbed_world\<lparr>display := [pcPollingSemaphoreTaskError],
        vars := [3 \<mapsto> 0xff], accesses := probe quiet 0xff, sched := [TaskDelay 0]\<rparr>"
     and pss = "[\<lparr>others = (\<lambda>w. w), pass_env = quiet\<rparr>]"
     and wa = "disturbed_world\<lparr>display := [pcPollingSemaphoreTaskError],
        vars := [3 \<mapsto> 0xff], accesses := probe quiet 0xff, sched := [TaskDelay 0]\<rparr>"
     and ?t2.0 = flagged_task
     and ?w2.0 = "disturbed_world\<lparr>display := [pcPollingSemaphoreTaskError],
        vars := [3 \<mapsto> 0xff], accesses := probe quiet 0xff @ probe quiet 0xff,
        sched := [TaskDelay 0, TaskDelay 0]\<rparr>"
     and env' = quiet
     and wb = "disturbed_world\<lparr>display := [pcPollingSemaphoreTaskError],
        vars := [3 \<mapsto> 0xff], accesses := probe quiet 0xff, sched := [TaskDelay 0]\<rparr>"
     and ?t3.0 = flagged_task
     and ?w3.0 = "disturbed_world\<lparr>display := [pcPollingSemaphoreTaskError],
        vars := [3 \<mapsto> 0xff], accesses := probe quiet 0xff @ probe quiet 0xff,
        sched := [TaskDelay 0, TaskDelay 0]\<rparr>"]
    pass_quiet_disturbed pass_quiet_flagged
  by simp

text \<open>
  C1 as stated fails.  The polling task finds its variable at 0 instead of \<open>0xff\<close>:
  a fault, and the pass restores \<open>0xff\<close>.  In its next pass the variable holds
  \<open>0xff\<close>, nothing interferes and the semaphore is given back: no fault occurs, and
  yet check variable 0 is still 0.
\<close>

theorem later_clean_pass_counterexample:
  "prvSemaphoreTest_cycle quiet polling_task disturbed_world =
     Ok (flagged_task, disturbed_world\<lparr>display := [pcPollingSemaphoreTaskError],
        vars := [3 \<mapsto> 0xff], accesses := probe quiet 0xff, sched := [TaskDelay 0]\<rparr>) \<and>
   take_passes quiet \<and>
   \<not> faulted quiet flagged_task (disturbed_world\<lparr>display := [pcPollingSemaphoreTaskError],
        vars := [3 \<mapsto> 0xff], accesses := probe quiet 0xff, sched := [TaskDelay 0]\<rparr>) \<and>
   prvSemaphoreTest_cycle quiet flagged_task
     (disturbed_world\<lparr>display := [pcPollingSemaphoreTaskError],
        vars := [3 \<mapsto> 0xff], accesses := probe quiet 0xff, sched := [TaskDelay 0]\<rparr>) =
     Ok (flagged_task, disturbed_world\<lparr>display := [pcPollingSemaphoreTaskError],
        vars := [3 \<mapsto> 0xff], accesses := probe quiet 0xff @ probe quiet 0xff,
        sched := [TaskDelay 0, TaskDelay 0]\<rparr>) \<and>
   sCheckVariables (disturbed_world\<lparr>display := [pcPollingSemaphoreTaskError],
        vars := [3 \<mapsto> 0xff], accesses := probe quiet 0xff @ probe quiet 0xff,
        sched := [TaskDelay 0, TaskDelay 0]\<rparr>) ! 0 = 0"
  using pass_quiet_disturbed pass_quiet_flagged
  by (simp add: faulted_def precondition_fault_def release_fault_def)

section \<open>Messages, check variables and indices\<close>

text \<open>
  C5, as amended.  A pass appends to the display queue one message when the variable
  does not hold the expected value after the take, one message when some re-read in the
  counting loop differs and the fault flag was clear when the loop began, and one
  message when the give fails; nothing else.  So a pass emits at most two messages; a
  pass without a fault emits none; and a pass of a task whose flag was clear at its
  start emits a message if and only if a fault occurs in it.
\<close>

theorem pass_emissions:
  assumes "prvSemaphoreTest_cycle env t w = Ok (t', w')"
    shows "display w' = display w @
             (if take_passes env \<and> precondition_fault t w
              then [pcPollingSemaphoreTaskError] else []) @
             (if take_passes env \<and> \<not> sError t \<and> \<not> precondition_fault t w \<and>
                 reverify_fault env t
              then [pcPollingSemaphoreTaskError] else []) @
             (if take_passes env \<and> release_fault env
              then [pcPollingSemaphoreTaskError] else []) \<and>
           length (display w') \<le> length (display w) + 2 \<and>
           (\<not> faulted env t w \<longrightarrow> display w' = display w) \<and>
           (\<not> sError t \<longrightarrow> (display w' \<noteq> display w) = faulted env t w)"
proof -
  note d = cycle_display[OF assms]
  have 2: "length (display w') \<le> length (display w) + 2" unfolding d by simp
  have 3: "\<not> faulted env t w \<longrightarrow> display w' = display w"
    unfolding d by (simp add: faulted_def)
  have 4: "\<not> sError t \<longrightarrow> (display w' \<noteq> display w) = faulted env t w"
    unfolding d by (auto simp add: faulted_def)
  from d 2 3 4 show ?thesis by blast
qed

theorem pass_emissions_witness:
  "\<not> sError polling_task \<and>
   faulted intruder polling_task rest_world \<and>
   display (rest_world\<lparr>display := [pcPollingSemaphoreTaskError],
        accesses := probe intruder 0xff, sched := [TaskDelay 0]\<rparr>) =
     display rest_world @ [pcPollingSemaphoreTaskError]"
  using pass_emissions [where env = intruder and t = polling_task and w = rest_world
     and t' = flagged_task and w' = "rest_world\<lparr>display := [pcPollingSemaphoreTaskError],
        accesses := probe intruder 0xff, sched := [TaskDelay 0]\<rparr>"]
    pass_intruder_polling
  by (simp add: faulted_def)

text \<open>
  C5 as stated fails in both directions.  A pass that finds the variable at 0 and
  whose give fails emits two messages.  A pass of a task whose flag is already set, in
  which a re-read differs from the value written, emits none.
\<close>

theorem pass_emissions_counterexample:
  "precondition_fault polling_task disturbed_world \<and> release_fault give_fails \<and>
   prvSemaphoreTest_cycle give_fails polling_task disturbed_world =
     Ok (flagged_task, disturbed_world\<lparr>display :=
          [pcPollingSemaphoreTaskError, pcPollingSemaphoreTaskError],
        vars := [3 \<mapsto> 0xff], accesses := probe give_fails 0xff, sched := [TaskDelay 0]\<rparr>) \<and>
   reverify_fault intruder flagged_task \<and> display rest_world = [] \<and>
   prvSemaphoreTest_cycle intruder flagged_task rest_world =
     Ok (flagged_task, rest_world\<lparr>accesses := probe intruder 0xff, sched := [TaskDelay 0]\<rparr>) \<and>
   display (rest_world\<lparr>accesses := probe intruder 0xff, sched := [TaskDelay 0]\<rparr>) = []"
  using pass_give_fails_disturbed pass_intruder_flagged
  by simp

text \<open>
  C7, as amended.  A pass changes no check variable but the task's own, and that one
  only by adding one modulo \<open>2^16\<close>.  It adds one exactly when the semaphore was
  taken, the fault flag is clear at the end of the pass (no fault in this pass or in
  an earlier one) and the task's index is below 4.  Read as a signed \<open>short\<close>, a check
  variable does not decrease in a pass unless it was 32767, from which adding one wraps
  to -32768.
\<close>

theorem check_variable_steps:
  assumes "prvSemaphoreTest_cycle env t w = Ok (t', w')"
    shows "sError t' = (sError t \<or> faulted env t w) \<and>
           sCheckVariables w' =
             (if take_passes env \<and> \<not> sError t' \<and>
                 sint (sCheckVariableToUse t) < int semtstNUM_TASKS
              then (sCheckVariables w)[nat (sint (sCheckVariableToUse t)) :=
                      sCheckVariables w ! nat (sint (sCheckVariableToUse t)) + 1]
              else sCheckVariables w) \<and>
           length (sCheckVariables w') = length (sCheckVariables w) \<and>
           (\<forall>j. j < length (sCheckVariables w) \<longrightarrow>
              sCheckVariables w' ! j = sCheckVariables w ! j \<or>
              j = nat (sint (sCheckVariableToUse t)) \<and>
              sCheckVariables w' ! j = sCheckVariables w ! j + 1) \<and>
           (\<forall>j. j < length (sCheckVariables w) \<and> sCheckVariables w ! j \<noteq> 0x7fff \<longrightarrow>
              sint (sCheckVariables w ! j) \<le> sint (sCheckVariables w' ! j))"
proof -
  from cycle_task[OF assms] have 1: "sError t' = (sError t \<or> faulted env t w)" by simp
  note 2 = cycle_check_variables[OF assms]
  have 3: "length (sCheckVariables w') = length (sCheckVariables w)" unfolding 2 by simp
  have 4: "\<forall>j. j < length (sCheckVariables w) \<longrightarrow>
              sCheckVariables w' ! j = sCheckVariables w ! j \<or>
              j = nat (sint (sCheckVariableToUse t)) \<and>
              sCheckVariables w' ! j = sCheckVariables w ! j + 1"
  proof (intro allI impI)
    fix j assume j: "j < length (sCheckVariables w)"
    show "sCheckVariables w' ! j = sCheckVariables w ! j \<or>
          j = nat (sint (sCheckVariableToUse t)) \<and>
          sCheckVariables w' ! j = sCheckVariables w ! j + 1"
    proof (cases "j = nat (sint (sCheckVariableToUse t))")
      case True
      with j show ?thesis unfolding 2 by simp
    next
      case False
      then show ?thesis unfolding 2 by simp
    qed
  qed
  have 5: "\<forall>j. j < length (sCheckVariables w) \<and> sCheckVariables w ! j \<noteq> 0x7fff \<longrightarrow>
              sint (sCheckVariables w ! j) \<le> sint (sCheckVariables w' ! j)"
  proof (intro allI impI)
    fix j assume j: "j < length (sCheckVariables w) \<and> sCheckVariables w ! j \<noteq> 0x7fff"
    from 4 j have "sCheckVariables w' ! j = sCheckVariables w ! j \<or>
       sCheckVariables w' ! j = sCheckVariables w ! j + 1" by blast
    then show "sint (sCheckVariables w ! j) \<le> sint (sCheckVariables w' ! j)"
      using sint_short_succ[of "sCheckVariables w ! j"] j by auto
  qed
  from 1 2 3 4 5 show ?thesis by blast
qed

theorem check_variable_steps_witness:
  "\<not> faulted quiet polling_task rest_world \<and>
   sCheckVariables (rest_world\<lparr>sCheckVariables := [1, 0, 0, 0],
        accesses := probe quiet 0xff, sched := [TaskDelay 0]\<rparr>) =
     (sCheckVariables rest_world)[0 := sCheckVariables rest_world ! 0 + 1]"
  using check_variable_steps [where env = quiet and t = polling_task and w = rest_world
     and t' = polling_task and w' = "rest_world\<lparr>sCheckVariables := [1, 0, 0, 0],
        accesses := probe quiet 0xff, sched := [TaskDelay 0]\<rparr>"]
    pass_quiet_rest
  by simp

text \<open>
  C7 as stated fails.  With check variable 0 at 32767, a pass without any fault
  makes it -32768: the counter has decreased.
\<close>

theorem check_variable_wrap_counterexample:
  "\<not> faulted quiet polling_task (rest_world\<lparr>sCheckVariables := [0x7fff, 0, 0, 0]\<rparr>) \<and>
   prvSemaphoreTest_cycle quiet polling_task (rest_world\<lparr>sCheckVariables := [0x7fff, 0, 0, 0]\<rparr>) =
     Ok (polling_task, rest_world\<lparr>sCheckVariables := [0x8000, 0, 0, 0],
        accesses := probe quiet 0xff, sched := [TaskDelay 0]\<rparr>) \<and>
   sint (0x7fff :: short) = 32767 \<and> sint (0x8000 :: short) = - 32768"
  using pass_quiet_wrap
  by (simp add: faulted_def precondition_fault_def release_fault_def)

text \<open>
  C10.  A task whose index is 4 or more, with a valid guarded variable and an expected
  value below \<open>0xffffffff\<close>, completes every pass: no access outside the array occurs,
  and the pass leaves all check variables as they were, also when no fault occurs.
\<close>

theorem high_index_leaves_counters:
  assumes "int semtstNUM_TASKS \<le> sint (sCheckVariableToUse t)"
      and "ulExpectedValue t \<noteq> - 1"
      and "vars w (pulSharedVariable (pxParameters t)) = Some v"
    shows "\<exists>t' w'. prvSemaphoreTest_cycle env t w = Ok (t', w') \<and>
             sError t' = (sError t \<or> faulted env t w) \<and>
             sCheckVariables w' = sCheckVariables w"
proof (cases "take_passes env")
  case False
  then show ?thesis by (simp add: cycle_not_taken faulted_def taskYIELD_def)
next
  case True
  have "\<exists>t' w'. prvSemaphoreTest_cycle env t w = Ok (t', w')"
    unfolding cycle_result[OF True assms(3,2)] using assms(1) by simp
  then obtain t' w' where c: "prvSemaphoreTest_cycle env t w = Ok (t', w')" by blast
  from cycle_task[OF c] have "sError t' = (sError t \<or> faulted env t w)" by simp
  moreover from cycle_check_variables[OF c] assms(1)
  have "sCheckVariables w' = sCheckVariables w" by simp
  ultimately show ?thesis using c by blast
qed

theorem high_index_leaves_counters_witness:
  "int semtstNUM_TASKS \<le> sint (sCheckVariableToUse fifth_task) \<and>
   ulExpectedValue fifth_task \<noteq> - 1 \<and>
   vars rest_world (pulSharedVariable (pxParameters fifth_task)) = Some 0xff \<and>
   \<not> faulted quiet fifth_task rest_world \<and>
   (\<exists>t' w'. prvSemaphoreTest_cycle quiet fifth_task rest_world = Ok (t', w') \<and>
      sError t' = False \<and> sCheckVariables w' = [0, 0, 0, 0])"
  using high_index_leaves_counters [of fifth_task rest_world "0xff" quiet]
  by (simp add: semtstNUM_TASKS_def faulted_def precondition_fault_def release_fault_def)

section \<open>The index allocator\<close>

lemma start_tasks_indices:
  assumes "set pvs \<subseteq> dom (params w)"
  shows "\<exists>ts w'. start_tasks pvs w = Ok (ts, w') \<and> length ts = length pvs \<and>
           map sCheckVariableToUse ts =
             map (\<lambda>k. sNextCheckVariable w + of_nat k) [0..<length pvs] \<and>
           sNextCheckVariable w' = sNextCheckVariable w + of_nat (length pvs) \<and>
           params w' = params w"
  using assms
proof (induction pvs arbitrary: w)
  case Nil
  then show ?case by simp
next
  case (Cons pv pvs)
  then obtain ps where ps: "params w pv = Some ps" by auto
  let ?w1 = "vPrintDisplayMessage pcSemaphoreTaskStart
               (w\<lparr>sNextCheckVariable := sNextCheckVariable w + 1\<rparr>)"
  let ?t = "\<lparr>pxParameters = ps, ulExpectedValue = expected_value (xBlockTime ps),
             sError = False, sCheckVariableToUse = sNextCheckVariable w\<rparr>"
  have st: "prvSemaphoreTest_start pv w = Ok (?t, ?w1)"
    using ps by (simp add: prvSemaphoreTest_start_def Let_def vPrintDisplayMessage_def)
  have p1: "params ?w1 = params w" and n1: "sNextCheckVariable ?w1 = sNextCheckVariable w + 1"
    by (simp_all add: vPrintDisplayMessage_def)
  from Cons.prems p1 have "set pvs \<subseteq> dom (params ?w1)" by simp
  from Cons.IH[OF this] obtain ts w' where
    r: "start_tasks pvs ?w1 = Ok (ts, w')" "length ts = length pvs"
       "map sCheckVariableToUse ts =
          map (\<lambda>k. sNextCheckVariable ?w1 + of_nat k) [0..<length pvs]"
       "sNextCheckVariable w' = sNextCheckVariable ?w1 + of_nat (length pvs)"
       "params w' = params ?w1"
    by blast
  have "start_tasks (pv # pvs) w = Ok (?t # ts, w')" using st r(1) by simp
  moreover have "map sCheckVariableToUse (?t # ts) =
      map (\<lambda>k. sNextCheckVariable w + of_nat k) [0..<length (pv # pvs)]"
  proof -
    have "[0..<length (pv # pvs)] = 0 # map Suc [0..<length pvs]"
      by (simp add: upt_conv_Cons map_Suc_upt del: upt_Suc)
    then show ?thesis using r(3) n1 by (simp add: add.assoc del: upt_Suc)
  qed
  moreover have "sNextCheckVariable w' = sNextCheckVariable w + of_nat (length (pv # pvs))"
    using r(4) n1 by (simp add: add.assoc)
  ultimately show ?case using r(2,5) p1 by simp
qed


lemma sint_short_of_nat: "k < 32768 \<Longrightarrow> sint (of_nat k :: short) = int k"
proof -
  assume k: "k < 32768"
  have "take_bit 16 k = k" using k by (simp add: take_bit_nat_eq_self)
  then have "sint (of_nat k :: short) = signed_take_bit 15 (int k)"
    by (simp add: sint_uint unsigned_of_nat take_bit_signed_take_bit)
  also have "\<dots> = int k" using k by (intro signed_take_bit_int_eq_self) simp_all
  finally show ?thesis .
qed


lemma started_world_simps [simp]:
  "sNextCheckVariable started_world = 0"
  "params started_world 1 = Some \<lparr>xSemaphore = 2, pulSharedVariable = 3, xBlockTime = 0\<rparr>"
  "params started_world (Suc 0) = Some \<lparr>xSemaphore = 2, pulSharedVariable = 3, xBlockTime = 0\<rparr>"
  "params started_world 4 = Some \<lparr>xSemaphore = 5, pulSharedVariable = 6, xBlockTime = 100\<rparr>"
  by (simp_all add: started_world_def initial_world_def)




text \<open>
  The tasks of a second call of \<open>vStartSemaphoreTasks\<close> are the fifth to eighth to
  start: a task that starts fifth or later receives an index of 4 or more.
\<close>

lemma late_starters_have_high_index:
  assumes "sNextCheckVariable w = 0"
      and "start_tasks pvs w = Ok (ts, w')"
      and "set pvs \<subseteq> dom (params w)"
      and "length pvs \<le> 32768"
      and "4 \<le> k" and "k < length pvs"
    shows "int semtstNUM_TASKS \<le> sint (sCheckVariableToUse (ts ! k))"
proof -
  from start_tasks_indices[OF assms(3)] assms(1,2)
  have l: "length ts = length pvs"
    and m: "map sCheckVariableToUse ts = map of_nat [0..<length pvs]"
    by auto
  from l assms(6) have "sCheckVariableToUse (ts ! k) = map sCheckVariableToUse ts ! k"
    by simp
  also have "\<dots> = of_nat k" unfolding m using assms(6) by simp
  finally have "sint (sCheckVariableToUse (ts ! k)) = int k"
    using assms(4,6) by (simp add: sint_short_of_nat)
  then show ?thesis using assms(5) by (simp add: semtstNUM_TASKS_def)
qed

section \<open>Start-up\<close>

lemma create_group_succeeds:
  assumes "malloc_params g \<noteq> NULL" and "sem_handle g \<noteq> NULL" and "malloc_var g \<noteq> NULL"
      and "created1 g" and "created2 g"
    shows "create_group g name1 name2 expected (Ok b) prio w =
       Ok (w\<lparr>vars := (vars w)(malloc_var g \<mapsto> expected),
              params := (params w)(malloc_params g \<mapsto>
                 \<lparr>xSemaphore = sem_handle g, pulSharedVariable = malloc_var g, xBlockTime = b\<rparr>),
              sems := (sems w)(sem_handle g \<mapsto> True),
              tasks := tasks w @
                 [\<lparr>pcName = name1, pvParameters = malloc_params g, uxPriority = prio\<rparr>,
                  \<lparr>pcName = name2, pvParameters = malloc_params g, uxPriority = prio\<rparr>]\<rparr>)"
  using assms
  by (simp add: create_group_def Let_def pvPortMalloc_params_def vSemaphoreCreateBinary_def
        update_params_def write_var_def xTaskCreate_def)

lemma create_group_no_variable:
  assumes "malloc_params g \<noteq> NULL" and "sem_handle g \<noteq> NULL" and "malloc_var g = NULL"
    shows "create_group g name1 name2 expected bt prio w = Fault NullPointerWrite"
  using assms
  by (simp add: create_group_def Let_def write_var_def)

lemma create_group_no_semaphore:
  assumes "malloc_params g \<noteq> NULL" and "sem_handle g = NULL"
    shows "\<exists>w'. create_group g name1 name2 expected bt prio w = Ok w' \<and> tasks w' = tasks w \<and>
             vars w' = vars w"
  using assms
  by (simp add: create_group_def Let_def pvPortMalloc_params_def vSemaphoreCreateBinary_def
        update_params_def)

lemma create_group_no_params:
  assumes "malloc_params g = NULL"
    shows "create_group g name1 name2 expected bt prio w = Ok w"
  using assms by (simp add: create_group_def)

lemma block_time_positive:
  fixes tick :: TickType_t
  assumes "0 < tick" and "tick \<le> 100"
  shows "0 < 100 div tick"
proof -
  from assms have "0 < unat tick" "unat tick \<le> 100"
    by (simp_all add: word_less_nat_alt word_le_nat_alt)
  then have "0 < 100 div unat tick" by (simp add: div_greater_zero_iff)
  then have "0 < unat (100 div tick)" by (simp add: unat_div)
  then show ?thesis by (simp add: word_less_nat_alt)
qed

text \<open>
  C9.  When every allocation succeeds, every task is created and the tick period is
  between 1 and 100 ms, \<open>vStartSemaphoreTasks\<close> returns, having added exactly four
  tasks: PolSEM1 and PolSEM2 at the idle priority, on one parameter structure with block
  time 0, and BlkSEM1 and BlkSEM2 at the caller's priority, on another with the block
  time \<open>100 / portTICK_PERIOD_MS\<close>, which is positive.  When the two groups are given
  different structures, variables and semaphores, the polling group's variable holds
  \<open>0xff\<close> and the blocking group's \<open>0xfff\<close>, which are the values their tasks
  expect, and both semaphores are available.
\<close>

theorem startup_configuration:
  assumes "malloc_params (first_group env) \<noteq> NULL" and "sem_handle (first_group env) \<noteq> NULL"
      and "malloc_var (first_group env) \<noteq> NULL"
      and "created1 (first_group env)" and "created2 (first_group env)"
      and "malloc_params (second_group env) \<noteq> NULL" and "sem_handle (second_group env) \<noteq> NULL"
      and "malloc_var (second_group env) \<noteq> NULL"
      and "created1 (second_group env)" and "created2 (second_group env)"
      and "malloc_params (first_group env) \<noteq> malloc_params (second_group env)"
      and "sem_handle (first_group env) \<noteq> sem_handle (second_group env)"
      and "malloc_var (first_group env) \<noteq> malloc_var (second_group env)"
      and "0 < tick" and "tick \<le> 100"
    shows "\<exists>w'. vStartSemaphoreTasks env tick prio w = Ok w' \<and>
             tasks w' = tasks w @
               [\<lparr>pcName = ''PolSEM1'', pvParameters = malloc_params (first_group env),
                  uxPriority = tskIDLE_PRIORITY\<rparr>,
                \<lparr>pcName = ''PolSEM2'', pvParameters = malloc_params (first_group env),
                  uxPriority = tskIDLE_PRIORITY\<rparr>,
                \<lparr>pcName = ''BlkSEM1'', pvParameters = malloc_params (second_group env),
                  uxPriority = prio\<rparr>,
                \<lparr>pcName = ''BlkSEM2'', pvParameters = malloc_params (second_group env),
                  uxPriority = prio\<rparr>] \<and>
             params w' (malloc_params (first_group env)) =
               Some \<lparr>xSemaphore = sem_handle (first_group env),
                     pulSharedVariable = malloc_var (first_group env), xBlockTime = 0\<rparr> \<and>
             params w' (malloc_params (second_group env)) =
               Some \<lparr>xSemaphore = sem_handle (second_group env),
                     pulSharedVariable = malloc_var (second_group env),
                     xBlockTime = 100 div tick\<rparr> \<and>
             0 < 100 div tick \<and>
             vars w' (malloc_var (first_group env)) = Some 0xff \<and>
             vars w' (malloc_var (second_group env)) = Some 0xfff \<and>
             expected_value 0 = 0xff \<and> expected_value (100 div tick) = 0xfff \<and>
             sems w' (sem_handle (first_group env)) = Some True \<and>
             sems w' (sem_handle (second_group env)) = Some True"
proof -
  have pos: "0 < 100 div tick" using assms(14,15) by (rule block_time_positive)
  from assms(14) have nz: "tick \<noteq> 0" by auto
  have ev: "expected_value 0 = 0xff" "expected_value (100 div tick) = 0xfff"
    using pos by (simp_all add: expected_value_def semtstNON_BLOCKING_EXPECTED_VALUE_def
          semtstBLOCKING_EXPECTED_VALUE_def)
  show ?thesis
    unfolding vStartSemaphoreTasks_def
      create_group_succeeds[OF assms(1-5)] bind_result.simps
    using nz assms(11-13) pos ev
    by (simp add: create_group_succeeds[OF assms(6-10)]
          semtstNON_BLOCKING_EXPECTED_VALUE_def semtstBLOCKING_EXPECTED_VALUE_def)
qed

theorem startup_configuration_witness:
  "(0 :: TickType_t) < 1 \<and> (1 :: TickType_t) \<le> 100 \<and>
   (\<exists>w'. vStartSemaphoreTasks good_startup 1 2 initial_world = Ok w' \<and>
      tasks w' = tasks started_world \<and>
      params w' 1 = params started_world 1 \<and> params w' 4 = params started_world 4 \<and>
      vars w' 3 = Some 0xff \<and> vars w' 6 = Some 0xfff \<and>
      sems w' 2 = Some True \<and> sems w' 5 = Some True)"
  using startup_configuration [of good_startup 1 2 initial_world]
  by (simp add: good_startup_def NULL_def started_world_def initial_world_def
        tskIDLE_PRIORITY_def) blast

text \<open>
  C2 fails on the code.  When \<open>pvPortMalloc\<close> returns \<open>NULL\<close> for the first
  group's shared variable, the structure and the semaphore having been allocated,
  \<open>vStartSemaphoreTasks\<close> writes \<open>0xff\<close> through the null pointer.
\<close>

theorem null_variable_is_written:
  "vStartSemaphoreTasks no_first_variable tick prio w = Fault NullPointerWrite"
  by (simp add: vStartSemaphoreTasks_def no_first_variable_def NULL_def
        create_group_no_variable)

lemma missing_semaphore_is_handled:
  "\<exists>w'. vStartSemaphoreTasks no_first_semaphore 1 2 initial_world = Ok w' \<and>
     tasks w' = [\<lparr>pcName = ''BlkSEM1'', pvParameters = 4, uxPriority = 2\<rparr>,
                 \<lparr>pcName = ''BlkSEM2'', pvParameters = 4, uxPriority = 2\<rparr>]"
proof -
  obtain w1 where
    1: "create_group (first_group no_first_semaphore) ''PolSEM1'' ''PolSEM2''
          semtstNON_BLOCKING_EXPECTED_VALUE (Ok 0) tskIDLE_PRIORITY initial_world = Ok w1"
    and t: "tasks w1 = tasks initial_world"
    using create_group_no_semaphore[of "first_group no_first_semaphore" "''PolSEM1''"
        "''PolSEM2''" semtstNON_BLOCKING_EXPECTED_VALUE "Ok 0" tskIDLE_PRIORITY initial_world]
    by (auto simp: no_first_semaphore_def NULL_def)
  show ?thesis
    unfolding vStartSemaphoreTasks_def 1 bind_result.simps
    using t
    by (simp add: create_group_succeeds no_first_semaphore_def NULL_def initial_world_def)
qed

end
